theory Spec2Isabelle
  imports Complex_Main "HOL-Library.AList"
begin

section \<open>Python values and the operations the handlers apply to them\<close>

text \<open>
  The handlers of \<^verbatim>\<open>server/app.py\<close> work on whatever \<^verbatim>\<open>request.get_json()\<close>
  returns, so the request body is a Python value built from JSON. A dict is an association
  list in insertion order, looked up with \<open>map_of\<close> and written with \<open>AList.update\<close>
  (a key already present keeps its place). A float is only stored and compared by this
  program, never computed on; it is carried as a real number. A \<open>string\<close> holds the code
  points below 256.
\<close>

datatype pyval =
    PNone
  | PBool bool
  | PInt int
  | PFloat real
  | PStr string
  | PList "pyval list"
  | PDict "(string \<times> pyval) list"

datatype exn =
    AttributeError
  | TypeError
  | KeyError
  | OperationalError
  | OverflowError
  | StoreError

text \<open>Truthiness, as \<^verbatim>\<open>if not data\<close> and \<^verbatim>\<open>if errors\<close> test it.\<close>

fun py_truthy :: "pyval \<Rightarrow> bool" where
  "py_truthy PNone = False"
| "py_truthy (PBool b) = b"
| "py_truthy (PInt n) = (n \<noteq> 0)"
| "py_truthy (PFloat r) = (r \<noteq> 0)"
| "py_truthy (PStr s) = (s \<noteq> [])"
| "py_truthy (PList xs) = (xs \<noteq> [])"
| "py_truthy (PDict d) = (d \<noteq> [])"

fun starts_with :: "string \<Rightarrow> string \<Rightarrow> bool" where
  "starts_with [] s = True"
| "starts_with (c # cs) [] = False"
| "starts_with (c # cs) (x # xs) = (c = x \<and> starts_with cs xs)"

fun py_substring :: "string \<Rightarrow> string \<Rightarrow> bool" where
  "py_substring k [] = (k = [])"
| "py_substring k (x # xs) = (starts_with k (x # xs) \<or> py_substring k xs)"

text \<open>
  \<^verbatim>\<open>k in data\<close> for a string \<open>k\<close>: a key test on a dict, a membership test on a list, a
  substring test on a string, and a TypeError on a value that is not a container.
\<close>

fun py_contains :: "string \<Rightarrow> pyval \<Rightarrow> exn + bool" where
  "py_contains k (PDict d) = Inr (k \<in> set (map fst d))"
| "py_contains k (PList xs) = Inr (PStr k \<in> set xs)"
| "py_contains k (PStr s) = Inr (py_substring k s)"
| "py_contains k PNone = Inl TypeError"
| "py_contains k (PBool b) = Inl TypeError"
| "py_contains k (PInt n) = Inl TypeError"
| "py_contains k (PFloat r) = Inl TypeError"

text \<open>\<^verbatim>\<open>data.get(k, default)\<close>: only a dict has the method.\<close>

fun py_get :: "pyval \<Rightarrow> string \<Rightarrow> pyval \<Rightarrow> exn + pyval" where
  "py_get (PDict d) k dflt = Inr (case map_of d k of Some v \<Rightarrow> v | None \<Rightarrow> dflt)"
| "py_get v k dflt = Inl AttributeError"

text \<open>
  \<^verbatim>\<open>data[k]\<close> for a string \<open>k\<close>: KeyError on a dict without the key, TypeError on a
  string or list (their indices are integers) and on a value that is not subscriptable.
\<close>

fun py_getitem :: "pyval \<Rightarrow> string \<Rightarrow> exn + pyval" where
  "py_getitem (PDict d) k = (case map_of d k of Some v \<Rightarrow> Inr v | None \<Rightarrow> Inl KeyError)"
| "py_getitem v k = Inl TypeError"

text \<open>
  \<^verbatim>\<open>str.isspace\<close> on the code points below 256: tab to carriage return, the four
  separators 28 to 31, space, next-line (133) and no-break space (160).
\<close>

definition py_isspace :: "char \<Rightarrow> bool" where
  "py_isspace c =
     (let n = (of_char c :: nat)
      in (9 \<le> n \<and> n \<le> 13) \<or> (28 \<le> n \<and> n \<le> 32) \<or> n = 133 \<or> n = 160)"

definition strip :: "string \<Rightarrow> string" where
  "strip s = rev (dropWhile py_isspace (rev (dropWhile py_isspace s)))"

text \<open>\<^verbatim>\<open>v.strip()\<close>: only a string has the method.\<close>

fun py_strip :: "pyval \<Rightarrow> exn + string" where
  "py_strip (PStr s) = Inr (strip s)"
| "py_strip v = Inl AttributeError"

text \<open>\<^verbatim>\<open>isinstance(v, (int, float))\<close>: \<^verbatim>\<open>bool\<close> is a subclass of \<^verbatim>\<open>int\<close>.\<close>

fun is_int_or_float :: "pyval \<Rightarrow> bool" where
  "is_int_or_float (PInt n) = True"
| "is_int_or_float (PFloat r) = True"
| "is_int_or_float (PBool b) = True"
| "is_int_or_float v = False"

text \<open>\<^verbatim>\<open>str(n)\<close> for an integer, as the f-string of the 404 message formats the id.\<close>

definition digit_char :: "nat \<Rightarrow> char" where
  "digit_char d = ''0123456789'' ! d"

function str_nat :: "nat \<Rightarrow> string" where
  "str_nat n = (if n < 10 then [digit_char n] else str_nat (n div 10) @ [digit_char (n mod 10)])"
  by pat_completeness auto
termination
  by (relation "measure (\<lambda>n. n)") auto

declare str_nat.simps [simp del]

definition str_int :: "int \<Rightarrow> string" where
  "str_int i = (if i < 0 then CHR ''-'' # str_nat (nat (- i)) else str_nat (nat i))"

section \<open>The validator\<close>

type_synonym errors = "(string \<times> string) list"

definition required_fields :: "string list" where
  "required_fields = [''name'', ''image'', ''price'']"

text \<open>
  The loop \<^verbatim>\<open>for field in required_fields: if field not in data: errors[field] = ...\<close>.
  The membership test raises on a body that is not a container, which ends the loop.
\<close>

fun check_required :: "string list \<Rightarrow> pyval \<Rightarrow> errors \<Rightarrow> exn + errors" where
  "check_required [] data errs = Inr errs"
| "check_required (field # fields) data errs =
     (case py_contains field data of
        Inl e \<Rightarrow> Inl e
      | Inr present \<Rightarrow>
          check_required fields data
            (if \<not> present then AList.update field ''This field is required'' errs else errs))"

text \<open>
  \<^verbatim>\<open>if 'name' in data and len(data.get('name', '').strip()) == 0\<close>: the value is
  stripped with no type check, so a name that is not a string raises AttributeError.
\<close>

definition check_name :: "pyval \<Rightarrow> errors \<Rightarrow> exn + errors" where
  "check_name data errs =
     (case py_contains ''name'' data of
        Inl e \<Rightarrow> Inl e
      | Inr False \<Rightarrow> Inr errs
      | Inr True \<Rightarrow>
          (case py_get data ''name'' (PStr '''') of
             Inl e \<Rightarrow> Inl e
           | Inr v \<Rightarrow>
               (case py_strip v of
                  Inl e \<Rightarrow> Inl e
                | Inr s \<Rightarrow>
                    Inr (if length s = 0
                         then AList.update ''name'' ''Name cannot be empty'' errs
                         else errs))))"

text \<open>\<^verbatim>\<open>if 'price' in data and not isinstance(data['price'], (int, float))\<close>.\<close>

definition check_price :: "pyval \<Rightarrow> errors \<Rightarrow> exn + errors" where
  "check_price data errs =
     (case py_contains ''price'' data of
        Inl e \<Rightarrow> Inl e
      | Inr False \<Rightarrow> Inr errs
      | Inr True \<Rightarrow>
          (case py_getitem data ''price'' of
             Inl e \<Rightarrow> Inl e
           | Inr v \<Rightarrow>
               Inr (if \<not> is_int_or_float v
                    then AList.update ''price'' ''Price must be a number'' errs
                    else errs)))"

text \<open>
  \<^verbatim>\<open>validate_plant_data(data, partial)\<close>: \<open>Inr None\<close> is the return value \<^verbatim>\<open>None\<close>,
  \<open>Inr (Some errs)\<close> a non-empty error dict, \<open>Inl e\<close> an exception leaving the function.
\<close>

definition validate_plant_data :: "pyval \<Rightarrow> bool \<Rightarrow> exn + errors option" where
  "validate_plant_data data partial =
     (case (if \<not> partial then check_required required_fields data [] else Inr []) of
        Inl e \<Rightarrow> Inl e
      | Inr errs1 \<Rightarrow>
          (case check_name data errs1 of
             Inl e \<Rightarrow> Inl e
           | Inr errs2 \<Rightarrow>
               (case check_price data errs2 of
                  Inl e \<Rightarrow> Inl e
                | Inr errs3 \<Rightarrow> Inr (if errs3 \<noteq> [] then Some errs3 else None))))"

section \<open>The Plant model and the store\<close>

text \<open>
  Modelled from the spec: the module \<^verbatim>\<open>models\<close> (the \<^verbatim>\<open>Plant\<close> class and \<^verbatim>\<open>db\<close>) is
  not among the sources. A persisted Plant has the five attributes of the spec's data
  model: an integer \<open>id\<close>, \<open>name\<close>, \<open>image\<close>, \<open>price\<close> and \<open>is_in_stock\<close>. The seed row
  of \<^verbatim>\<open>PlantByID.get\<close> constructs a Plant from exactly these five keywords. The store keeps
  a value as it was given (no conversion to a column type is modelled), which is what lets
  a partial update store a non-numeric price.
\<close>

record plant =
  plant_id :: int
  plant_name :: pyval
  plant_image :: pyval
  plant_price :: pyval
  plant_is_in_stock :: pyval

text \<open>
  Modelled from the spec: the column attributes of a loaded \<^verbatim>\<open>Plant\<close> object, by name.
\<close>

type_synonym attrs = "(string \<times> pyval) list"

definition plant_attrs :: "plant \<Rightarrow> attrs" where
  "plant_attrs p =
     [(''id'', PInt (plant_id p)),
      (''name'', plant_name p),
      (''image'', plant_image p),
      (''price'', plant_price p),
      (''is_in_stock'', plant_is_in_stock p)]"

text \<open>Modelled from the spec: \<^verbatim>\<open>to_dict()\<close> serialises the five attributes.\<close>

definition to_dict :: "plant \<Rightarrow> pyval" where
  "to_dict p = PDict (plant_attrs p)"

definition attr_value :: "attrs \<Rightarrow> string \<Rightarrow> pyval" where
  "attr_value obj attr = (case map_of obj attr of Some v \<Rightarrow> v | None \<Rightarrow> PNone)"

text \<open>
  Modelled from the spec: the row that a flush writes for an object. The id is an integer
  in the store, so an object whose \<open>id\<close> was set to anything else cannot be written.
\<close>

definition plant_of_attrs :: "attrs \<Rightarrow> plant option" where
  "plant_of_attrs obj =
     (case map_of obj ''id'' of
        Some (PInt n) \<Rightarrow>
          Some \<lparr>plant_id = n,
                plant_name = attr_value obj ''name'',
                plant_image = attr_value obj ''image'',
                plant_price = attr_value obj ''price'',
                plant_is_in_stock = attr_value obj ''is_in_stock''\<rparr>
      | _ \<Rightarrow> None)"

text \<open>
  The store is the \<^verbatim>\<open>plants\<close> table in the store's return order, or \<open>None\<close> while the
  table does not exist (the case \<^verbatim>\<open>PlantByID.get\<close> tests with the inspector). A query or
  a commit on a store without the table raises OperationalError.
\<close>

type_synonym store = "plant list option"

datatype commit_result = Committed | IntegrityError | OtherError

text \<open>
  What setting attributes of the object other than the five columns does to the rest of
  the handler: the assignment or the commit raises; or the commit succeeds and
  \<^verbatim>\<open>to_dict()\<close> raises; or \<^verbatim>\<open>to_dict()\<close> returns a body.
\<close>

datatype attr_effect = SetFails | ToDictFails | ToDictReturns pyval

text \<open>
  Modelled from the spec: what \<^verbatim>\<open>models\<close> declares and this program depends on, taken as a
  parameter. \<open>default_is_in_stock\<close> is the store-defined default of the column;
  \<open>row_check\<close> is the verdict of the table's constraints on a row being written and
  \<open>delete_check\<close> on a row being removed (\<open>IntegrityError\<close> is the exception the
  handlers catch by name, \<open>OtherError\<close> any other exception of the store);
  \<open>spare_id\<close> is the id the store picks for a new row when the largest id in the table
  is the largest integer of the store. \<open>class_attr\<close> tells which names other than the
  five columns \<^verbatim>\<open>hasattr\<close> finds on a Plant object (methods, attributes of \<^verbatim>\<open>object\<close> and
  of the ORM), and \<open>class_attr_effect\<close> what setting such attributes to the given values
  does, given the row the commit writes.
\<close>

record schema =
  default_is_in_stock :: pyval
  row_check :: "plant \<Rightarrow> commit_result"
  delete_check :: "plant \<Rightarrow> commit_result"
  spare_id :: "plant list \<Rightarrow> int option"
  class_attr :: "string \<Rightarrow> bool"
  class_attr_effect :: "attrs \<Rightarrow> plant \<Rightarrow> attr_effect"

text \<open>
  A loaded Plant object in the session: the values of its five columns and the other
  attributes that were set on it, both by name.
\<close>

type_synonym plant_obj = "attrs \<times> attrs"

text \<open>
  \<^verbatim>\<open>hasattr(plant, attr)\<close> and \<^verbatim>\<open>setattr(plant, attr, v)\<close> for a string \<open>attr\<close>. An
  assignment to a column changes the pending row; an assignment to another attribute is
  recorded, and its effect is that of \<open>class_attr_effect\<close>.
\<close>

definition hasattr :: "schema \<Rightarrow> plant_obj \<Rightarrow> string \<Rightarrow> bool" where
  "hasattr sch obj attr = (attr \<in> set (map fst (fst obj)) \<or> class_attr sch attr)"

definition setattr :: "plant_obj \<Rightarrow> string \<Rightarrow> pyval \<Rightarrow> plant_obj" where
  "setattr obj attr v =
     (if attr \<in> set (map fst (fst obj)) then (AList.update attr v (fst obj), snd obj)
      else (fst obj, AList.update attr v (snd obj)))"

text \<open>
  The store is an SQLite database (\<^verbatim>\<open>sqlite:///plants.db\<close>): an integer bound to a
  statement must fit 64 bits, and the driver raises OverflowError for one that does not.
\<close>

definition sqlite_int :: "int \<Rightarrow> bool" where
  "sqlite_int i = (- (2 ^ 63) \<le> i \<and> i < 2 ^ 63)"

text \<open>
  \<^verbatim>\<open>Plant.query.filter_by(id=id).first()\<close> on an existing table: the first row with the
  id, or an OverflowError when the id cannot be bound.
\<close>

definition query_first :: "int \<Rightarrow> plant list \<Rightarrow> exn + plant option" where
  "query_first i rows =
     (if sqlite_int i then Inr (find (\<lambda>p. plant_id p = i) rows) else Inl OverflowError)"

text \<open>
  Modelled from the spec: the store assigns a new unique id. The policy is the one of an
  integer primary key: one more than the largest id in the table, 1 in an empty table.
\<close>

fun next_id :: "plant list \<Rightarrow> int" where
  "next_id [] = 1"
| "next_id (p # ps) = foldl max (plant_id p) (map plant_id ps) + 1"

text \<open>
  Modelled from the spec: where that id does not fit the store's integers, the store picks
  an id (\<open>spare_id\<close>); the insert goes ahead when the pick is an integer of the store
  that no row has, and fails otherwise (\<open>None\<close>).
\<close>

definition new_id :: "schema \<Rightarrow> plant list \<Rightarrow> int option" where
  "new_id sch rows =
     (if sqlite_int (next_id rows) then Some (next_id rows)
      else (case spare_id sch rows of
              None \<Rightarrow> None
            | Some k \<Rightarrow>
                if sqlite_int k \<and> k \<notin> set (map plant_id rows) then Some k else None))"

text \<open>
  The statements a flush emits address the row by its primary key:
  \<^verbatim>\<open>DELETE ... WHERE id = i\<close> and \<^verbatim>\<open>UPDATE ... WHERE id = i\<close>.
\<close>

definition delete_rows :: "int \<Rightarrow> plant list \<Rightarrow> plant list" where
  "delete_rows i rows = filter (\<lambda>p. plant_id p \<noteq> i) rows"

definition update_rows :: "int \<Rightarrow> plant \<Rightarrow> plant list \<Rightarrow> plant list" where
  "update_rows i q rows = map (\<lambda>p. if plant_id p = i then q else p) rows"

text \<open>
  Modelled from the spec: the commit of a partial update of the row with id \<open>i\<close>. It fails
  when the object's id is not an integer of the store, when the id was changed to one in
  use (ids are unique) and when the table's constraints reject the new row; \<open>None\<close> is
  that failure, whatever the exception.
\<close>

definition commit_update ::
  "schema \<Rightarrow> int \<Rightarrow> attrs \<Rightarrow> plant list \<Rightarrow> (plant \<times> plant list) option" where
  "commit_update sch i obj rows =
     (case plant_of_attrs obj of
        None \<Rightarrow> None
      | Some q \<Rightarrow>
          if \<not> sqlite_int (plant_id q) then None
          else if plant_id q \<noteq> i \<and> plant_id q \<in> set (map plant_id rows) then None
          else if row_check sch q = Committed then Some (q, update_rows i q rows)
          else None)"

section \<open>Responses\<close>

text \<open>
  \<open>Response code body\<close> is \<^verbatim>\<open>make_response(jsonify(body), code)\<close>; \<open>Raised e\<close> is an
  exception that leaves the handler uncaught, which the framework answers with status 500.
\<close>

datatype outcome = Response nat pyval | Raised exn

fun http_status :: "outcome \<Rightarrow> nat" where
  "http_status (Response code body) = code"
| "http_status (Raised e) = 500"

definition error_body :: "string \<Rightarrow> pyval" where
  "error_body msg = PDict [(''error'', PStr msg)]"

definition errors_body :: "errors \<Rightarrow> pyval" where
  "errors_body errs = PDict [(''errors'', PDict (map (\<lambda>(k, m). (k, PStr m)) errs))]"

section \<open>The resource \<^verbatim>\<open>Plants\<close>\<close>

definition Plants_get :: "store \<Rightarrow> outcome \<times> store" where
  "Plants_get s =
     (case s of
        None \<Rightarrow> (Raised OperationalError, s)
      | Some rows \<Rightarrow>
          (let plants = map to_dict rows
           in (Response 200
                 (PDict [(''success'', PBool True),
                         (''data'', PList plants),
                         (''count'', PInt (int (length plants)))]),
               s)))"

text \<open>
  The \<^verbatim>\<open>try\<close> block of \<^verbatim>\<open>Plants.post\<close>: only \<open>name\<close>, \<open>image\<close> and \<open>price\<close> are passed to
  the constructor, so \<open>is_in_stock\<close> takes the default. An IntegrityError is caught and
  rolled back; any other exception leaves the handler.
\<close>

definition post_try :: "schema \<Rightarrow> pyval \<Rightarrow> store \<Rightarrow> outcome \<times> store" where
  "post_try sch data s =
     (case py_getitem data ''name'' of
        Inl e \<Rightarrow> (Raised e, s)
      | Inr nm \<Rightarrow>
     (case py_getitem data ''image'' of
        Inl e \<Rightarrow> (Raised e, s)
      | Inr im \<Rightarrow>
     (case py_getitem data ''price'' of
        Inl e \<Rightarrow> (Raised e, s)
      | Inr pr \<Rightarrow>
     (case s of
        None \<Rightarrow> (Raised OperationalError, s)
      | Some rows \<Rightarrow>
          (case new_id sch rows of
             None \<Rightarrow> (Raised OperationalError, s)
           | Some n \<Rightarrow>
               (let new_plant =
                      \<lparr>plant_id = n,
                       plant_name = nm,
                       plant_image = im,
                       plant_price = pr,
                       plant_is_in_stock = default_is_in_stock sch\<rparr>
                in (case row_check sch new_plant of
                      Committed \<Rightarrow>
                        (Response 201
                           (PDict [(''success'', PBool True), (''data'', to_dict new_plant)]),
                         Some (rows @ [new_plant]))
                    | IntegrityError \<Rightarrow>
                        (Response 500 (error_body ''Database error occurred''), s)
                    | OtherError \<Rightarrow> (Raised StoreError, s))))))))"

definition Plants_post :: "schema \<Rightarrow> pyval \<Rightarrow> store \<Rightarrow> outcome \<times> store" where
  "Plants_post sch data s =
     (if \<not> py_truthy data then (Response 400 (error_body ''No data provided''), s)
      else
        (case validate_plant_data data False of
           Inl e \<Rightarrow> (Raised e, s)
         | Inr None \<Rightarrow> post_try sch data s
         | Inr (Some errs) \<Rightarrow>
             if errs \<noteq> [] then (Response 400 (errors_body errs), s)
             else post_try sch data s))"

section \<open>The resource \<^verbatim>\<open>PlantByID\<close>\<close>

definition test_plant :: plant where
  "test_plant =
     \<lparr>plant_id = 1,
      plant_name = PStr ''Test Plant'',
      plant_image = PStr ''test.jpg'',
      plant_price = PFloat 9.99,
      plant_is_in_stock = PBool True\<rparr>"

text \<open>
  The first step of \<^verbatim>\<open>PlantByID.get\<close>: a missing table is created and seeded with the test
  plant (the seed row is the program's own and is taken to satisfy the table's constraints).
\<close>

definition bootstrap :: "store \<Rightarrow> plant list" where
  "bootstrap s = (case s of None \<Rightarrow> [test_plant] | Some rows \<Rightarrow> rows)"

text \<open>
  The answer of the \<^verbatim>\<open>except\<close> branch of \<^verbatim>\<open>PlantByID.get\<close> to the exception its body can
  raise, the OverflowError of the lookup: status 500 with the text of the exception and
  the name of its class.
\<close>

definition overflow_body :: pyval where
  "overflow_body =
     PDict [(''error'',
             PStr ''Server error occurred: Python int too large to convert to SQLite INTEGER''),
            (''details'', PStr ''OverflowError'')]"

definition PlantByID_get :: "int \<Rightarrow> store \<Rightarrow> outcome \<times> store" where
  "PlantByID_get i s =
     (let rows = bootstrap s
      in (case query_first i rows of
            Inl e \<Rightarrow> (Response 500 overflow_body, Some rows)
          | Inr None \<Rightarrow>
              (Response 404 (error_body (''Plant with id '' @ str_int i @ '' not found'')),
               Some rows)
          | Inr (Some p) \<Rightarrow> (Response 200 (to_dict p), Some rows)))"

text \<open>
  \<^verbatim>\<open>for attr in data\<close>: the keys of a dict, the elements of a list, the characters of a
  string; a value that is not iterable raises TypeError.
\<close>

fun py_iter :: "pyval \<Rightarrow> exn + pyval list" where
  "py_iter (PDict d) = Inr (map (\<lambda>kv. PStr (fst kv)) d)"
| "py_iter (PList xs) = Inr xs"
| "py_iter (PStr s) = Inr (map (\<lambda>c. PStr [c]) s)"
| "py_iter v = Inl TypeError"

text \<open>
  The body of the loop, \<^verbatim>\<open>if hasattr(plant, attr): setattr(plant, attr, data[attr])\<close>.
  \<^verbatim>\<open>hasattr\<close> raises TypeError on an attribute name that is not a string.
\<close>

fun set_attrs :: "schema \<Rightarrow> pyval list \<Rightarrow> pyval \<Rightarrow> plant_obj \<Rightarrow> exn + plant_obj" where
  "set_attrs sch [] data obj = Inr obj"
| "set_attrs sch (PStr attr # rest) data obj =
     (if hasattr sch obj attr
      then (case py_getitem data attr of
              Inl e \<Rightarrow> Inl e
            | Inr v \<Rightarrow> set_attrs sch rest data (setattr obj attr v))
      else set_attrs sch rest data obj)"
| "set_attrs sch (v # rest) data obj = Inl TypeError"

text \<open>
  \<^verbatim>\<open>db.session.commit()\<close> and \<^verbatim>\<open>plant.to_dict()\<close> at the end of \<^verbatim>\<open>PlantByID.patch\<close>: an
  exception before or in the commit is rolled back; one raised by \<^verbatim>\<open>to_dict()\<close> comes
  after the commit, so the rollback of the \<^verbatim>\<open>except\<close> branch undoes nothing.
\<close>

definition commit_and_respond ::
  "schema \<Rightarrow> int \<Rightarrow> plant_obj \<Rightarrow> plant list \<Rightarrow> outcome \<times> store" where
  "commit_and_respond sch i obj rows =
     (case commit_update sch i (fst obj) rows of
        None \<Rightarrow> (Response 500 (error_body ''Server error occurred''), Some rows)
      | Some (q, rows') \<Rightarrow>
          if snd obj = [] then (Response 200 (to_dict q), Some rows')
          else
            (case class_attr_effect sch (snd obj) q of
               SetFails \<Rightarrow> (Response 500 (error_body ''Server error occurred''), Some rows)
             | ToDictFails \<Rightarrow> (Response 500 (error_body ''Server error occurred''), Some rows')
             | ToDictReturns body \<Rightarrow> (Response 200 body, Some rows')))"

text \<open>
  \<^verbatim>\<open>PlantByID.patch\<close>. The whole body is inside \<^verbatim>\<open>try\<close> and every exception is caught,
  rolled back and answered with 500; no validation is applied.
\<close>

definition PlantByID_patch :: "schema \<Rightarrow> int \<Rightarrow> pyval \<Rightarrow> store \<Rightarrow> outcome \<times> store" where
  "PlantByID_patch sch i data s =
     (case s of
        None \<Rightarrow> (Response 500 (error_body ''Server error occurred''), s)
      | Some rows \<Rightarrow>
          (case query_first i rows of
             Inl e \<Rightarrow> (Response 500 (error_body ''Server error occurred''), s)
           | Inr None \<Rightarrow> (Response 404 (error_body ''Plant not found''), s)
           | Inr (Some p) \<Rightarrow>
               if \<not> py_truthy data then (Response 400 (error_body ''No data provided''), s)
               else
                 (case py_iter data of
                    Inl e \<Rightarrow> (Response 500 (error_body ''Server error occurred''), s)
                  | Inr keys \<Rightarrow>
                      (case set_attrs sch keys data (plant_attrs p, []) of
                         Inl e \<Rightarrow> (Response 500 (error_body ''Server error occurred''), s)
                       | Inr obj \<Rightarrow> commit_and_respond sch i obj rows))))"

text \<open>
  \<^verbatim>\<open>PlantByID.delete\<close>. The lookup is outside \<^verbatim>\<open>try\<close>, so an exception it raises
  leaves the handler; only an IntegrityError of the commit is caught.
\<close>

definition PlantByID_delete :: "schema \<Rightarrow> int \<Rightarrow> store \<Rightarrow> outcome \<times> store" where
  "PlantByID_delete sch i s =
     (case s of
        None \<Rightarrow> (Raised OperationalError, s)
      | Some rows \<Rightarrow>
          (case query_first i rows of
             Inl e \<Rightarrow> (Raised e, s)
           | Inr None \<Rightarrow> (Response 404 (error_body ''Plant not found''), s)
           | Inr (Some p) \<Rightarrow>
               (case delete_check sch p of
                  Committed \<Rightarrow> (Response 204 (PStr []), Some (delete_rows i rows))
                | IntegrityError \<Rightarrow> (Response 500 (error_body ''Database error occurred''), s)
                | OtherError \<Rightarrow> (Raised StoreError, s))))"

section \<open>Requests and runs\<close>

text \<open>The five routes registered with \<^verbatim>\<open>api.add_resource\<close>.\<close>

datatype request =
    ListPlants
  | CreatePlant pyval
  | GetPlant int
  | PatchPlant int pyval
  | DeletePlant int

fun handle :: "schema \<Rightarrow> request \<Rightarrow> store \<Rightarrow> outcome \<times> store" where
  "handle sch ListPlants s = Plants_get s"
| "handle sch (CreatePlant data) s = Plants_post sch data s"
| "handle sch (GetPlant i) s = PlantByID_get i s"
| "handle sch (PatchPlant i data) s = PlantByID_patch sch i data s"
| "handle sch (DeletePlant i) s = PlantByID_delete sch i s"

text \<open>A sequence of requests served one after the other, with the outcomes in order.\<close>

fun run :: "schema \<Rightarrow> request list \<Rightarrow> store \<Rightarrow> outcome list \<times> store" where
  "run sch [] s = ([], s)"
| "run sch (r # rs) s =
     (case handle sch r s of
        (out, s') \<Rightarrow> (case run sch rs s' of (outs, s'') \<Rightarrow> (out # outs, s'')))"

text \<open>The rows of a store; a store without a table holds none.\<close>

definition stored :: "store \<Rightarrow> plant list" where
  "stored s = (case s of None \<Rightarrow> [] | Some rows \<Rightarrow> rows)"

text \<open>
  A schema without constraints, whose Plant objects have no attribute beyond the five
  columns, to run the handlers on concrete requests.
\<close>

definition lax_schema :: schema where
  "lax_schema =
     \<lparr>default_is_in_stock = PNone,
      row_check = (\<lambda>p. Committed),
      delete_check = (\<lambda>p. Committed),
      spare_id = (\<lambda>rows. None),
      class_attr = (\<lambda>attr. False),
      class_attr_effect = (\<lambda>others q. SetFails)\<rparr>"

text \<open>Whether a value is a Python \<^verbatim>\<open>str\<close>.\<close>

fun is_str :: "pyval \<Rightarrow> bool" where
  "is_str (PStr s) = True"
| "is_str v = False"

text \<open>The names of the attributes of a Plant, in the order of \<open>plant_attrs\<close>.\<close>

definition plant_columns :: "string list" where
  "plant_columns = [''id'', ''name'', ''image'', ''price'', ''is_in_stock'']"

text \<open>Whether a request is a partial update whose JSON object has an \<open>id\<close> key.\<close>

fun sets_id :: "request \<Rightarrow> bool" where
  "sets_id (PatchPlant i (PDict d)) = (''id'' \<in> set (map fst d))"
| "sets_id r = False"

text \<open>A second row, for runs on more than one record.\<close>

definition fern_plant :: plant where
  "fern_plant =
     \<lparr>plant_id = 2,
      plant_name = PStr ''Fern'',
      plant_image = PStr ''fern.jpg'',
      plant_price = PFloat 12.5,
      plant_is_in_stock = PNone\<rparr>"

text \<open>
  The number of outcomes with a given status. Only \<^verbatim>\<open>Plants.post\<close> answers 201 (a record
  was created) and only \<^verbatim>\<open>PlantByID.delete\<close> answers 204 (a record was deleted).
\<close>

definition count_status :: "nat \<Rightarrow> outcome list \<Rightarrow> nat" where
  "count_status code outs = length (filter (\<lambda>out. http_status out = code) outs)"

text \<open>The store with its table and no rows.\<close>

definition empty_store :: store where
  "empty_store = Some []"

text \<open>The number a string of decimal digits denotes, to state what \<open>str_nat\<close> returns.\<close>

definition decimal_value :: "string \<Rightarrow> nat" where
  "decimal_value s = foldl (\<lambda>a c. 10 * a + (of_char c - 48)) 0 s"

section \<open>The validator on a JSON object\<close>

lemma map_of_key: "map_of d k = Some v \<Longrightarrow> k \<in> fst ` set d"
  by (metis domI dom_map_of_conv_image_fst)

text \<open>
  On a dict the loop over the required fields never raises, and it records exactly the
  fields the body lacks.
\<close>

lemma check_required_dict:
  "\<exists>errs'. check_required fs (PDict d) errs = Inr errs' \<and>
     (\<forall>f. map_of errs' f =
        (if f \<in> set fs \<and> f \<notin> fst ` set d then Some ''This field is required''
         else map_of errs f))"
proof (induction fs arbitrary: errs)
  case Nil
  then show ?case by simp
next
  case (Cons g gs)
  obtain errs' where e: "check_required gs (PDict d)
       (if g \<notin> fst ` set d then AList.update g ''This field is required'' errs else errs) = Inr errs'"
    and m: "\<forall>f. map_of errs' f =
        (if f \<in> set gs \<and> f \<notin> fst ` set d then Some ''This field is required''
         else map_of (if g \<notin> fst ` set d then AList.update g ''This field is required'' errs else errs) f)"
    using Cons.IH by blast
  show ?case
    using e m by (auto simp: update_conv')
qed

lemma check_name_absent:
  "''name'' \<notin> fst ` set d \<Longrightarrow> check_name (PDict d) errs = Inr errs"
  by (simp add: check_name_def)

lemma check_name_str:
  "map_of d ''name'' = Some (PStr w) \<Longrightarrow>
   check_name (PDict d) errs =
     Inr (if strip w = [] then AList.update ''name'' ''Name cannot be empty'' errs else errs)"
  using map_of_key [of d "''name''"] by (simp add: check_name_def)

lemma check_name_not_str:
  "map_of d ''name'' = Some v \<Longrightarrow> \<not> is_str v \<Longrightarrow> check_name (PDict d) errs = Inl AttributeError"
  using map_of_key [of d "''name''"] by (cases v) (simp_all add: check_name_def)

lemma check_price_absent:
  "''price'' \<notin> fst ` set d \<Longrightarrow> check_price (PDict d) errs = Inr errs"
  by (simp add: check_price_def)

lemma check_price_present:
  "map_of d ''price'' = Some v \<Longrightarrow>
   check_price (PDict d) errs =
     Inr (if \<not> is_int_or_float v
          then AList.update ''price'' ''Price must be a number'' errs else errs)"
  using map_of_key [of d "''price''"] by (simp add: check_price_def)

lemma check_name_dict:
  assumes "map_of d ''name'' = None \<or> (\<exists>w. map_of d ''name'' = Some (PStr w))"
  shows "\<exists>e2. check_name (PDict d) e1 = Inr e2 \<and>
     (\<forall>f. f \<noteq> ''name'' \<longrightarrow> map_of e2 f = map_of e1 f) \<and>
     (''name'' \<notin> fst ` set d \<longrightarrow> e2 = e1) \<and>
     (\<forall>w. map_of d ''name'' = Some (PStr w) \<and> strip w = [] \<longrightarrow>
          map_of e2 ''name'' = Some ''Name cannot be empty'')"
proof (cases "map_of d ''name''")
  case None
  then have "''name'' \<notin> fst ` set d" by (simp add: map_of_eq_None_iff)
  then show ?thesis using None by (simp add: check_name_absent)
next
  case (Some v)
  then obtain w where w: "map_of d ''name'' = Some (PStr w)" using assms by auto
  then have "''name'' \<in> fst ` set d" by (rule map_of_key)
  then show ?thesis using w by (simp add: check_name_str update_conv')
qed

lemma check_price_dict:
  "\<exists>e3. check_price (PDict d) e2 = Inr e3 \<and>
     (\<forall>f. f \<noteq> ''price'' \<longrightarrow> map_of e3 f = map_of e2 f) \<and>
     (''price'' \<notin> fst ` set d \<longrightarrow> e3 = e2) \<and>
     (\<forall>v. map_of d ''price'' = Some v \<and> \<not> is_int_or_float v \<longrightarrow>
          map_of e3 ''price'' = Some ''Price must be a number'')"
proof (cases "map_of d ''price''")
  case None
  then have "''price'' \<notin> fst ` set d" by (simp add: map_of_eq_None_iff)
  then show ?thesis using None by (simp add: check_price_absent)
next
  case (Some v)
  then have "''price'' \<in> fst ` set d" by (rule map_of_key)
  then show ?thesis using Some by (simp add: check_price_present update_conv')
qed

lemma validate_dict:
  assumes "map_of d ''name'' = None \<or> (\<exists>w. map_of d ''name'' = Some (PStr w))"
  shows "\<exists>errs. validate_plant_data (PDict d) False = Inr (if errs \<noteq> [] then Some errs else None) \<and>
     (\<forall>f\<in>set required_fields. f \<notin> fst ` set d \<longrightarrow> map_of errs f = Some ''This field is required'') \<and>
     (\<forall>w. map_of d ''name'' = Some (PStr w) \<and> strip w = [] \<longrightarrow>
          map_of errs ''name'' = Some ''Name cannot be empty'') \<and>
     (\<forall>v. map_of d ''price'' = Some v \<and> \<not> is_int_or_float v \<longrightarrow>
          map_of errs ''price'' = Some ''Price must be a number'')"
proof -
  obtain e1 where r: "check_required required_fields (PDict d) [] = Inr e1"
    and m1: "\<forall>f. map_of e1 f =
        (if f \<in> set required_fields \<and> f \<notin> fst ` set d then Some ''This field is required''
         else map_of [] f)"
    using check_required_dict by blast
  obtain e2 where n: "check_name (PDict d) e1 = Inr e2"
    and m2: "\<forall>f. f \<noteq> ''name'' \<longrightarrow> map_of e2 f = map_of e1 f"
    and m2a: "''name'' \<notin> fst ` set d \<longrightarrow> e2 = e1"
    and m2b: "\<forall>w. map_of d ''name'' = Some (PStr w) \<and> strip w = [] \<longrightarrow>
          map_of e2 ''name'' = Some ''Name cannot be empty''"
    using check_name_dict [OF assms, of e1] by blast
  obtain e3 where p: "check_price (PDict d) e2 = Inr e3"
    and m3: "\<forall>f. f \<noteq> ''price'' \<longrightarrow> map_of e3 f = map_of e2 f"
    and m3a: "''price'' \<notin> fst ` set d \<longrightarrow> e3 = e2"
    and m3b: "\<forall>v. map_of d ''price'' = Some v \<and> \<not> is_int_or_float v \<longrightarrow>
          map_of e3 ''price'' = Some ''Price must be a number''"
    using check_price_dict [of d e2] by blast
  have v: "validate_plant_data (PDict d) False = Inr (if e3 \<noteq> [] then Some e3 else None)"
    by (simp add: validate_plant_data_def r n p)
  have req: "\<forall>f\<in>set required_fields. f \<notin> fst ` set d \<longrightarrow> map_of e3 f = Some ''This field is required''"
  proof (intro ballI impI)
    fix f assume f: "f \<in> set required_fields" "f \<notin> fst ` set d"
    have 1: "map_of e1 f = Some ''This field is required''" using m1 f by simp
    have 2: "map_of e2 f = map_of e1 f"
      using m2 m2a f by (cases "f = ''name''") auto
    have 3: "map_of e3 f = map_of e2 f"
      using m3 m3a f by (cases "f = ''price''") auto
    show "map_of e3 f = Some ''This field is required''" using 1 2 3 by simp
  qed
  have nm: "\<forall>w. map_of d ''name'' = Some (PStr w) \<and> strip w = [] \<longrightarrow>
          map_of e3 ''name'' = Some ''Name cannot be empty''"
    using m2b m3 by simp
  show ?thesis using v req nm m3b by blast
qed

lemma post_validation_failure:
  assumes "validate_plant_data data False = Inr (if errs \<noteq> [] then Some errs else None)"
    and "errs \<noteq> []" and "py_truthy data"
  shows "Plants_post sch data s = (Response 400 (errors_body errs), s)"
  using assms by (simp add: Plants_post_def)

lemma post_missing_fields:
  assumes "map_of d ''name'' = None \<or> (\<exists>w. map_of d ''name'' = Some (PStr w))"
    and "d \<noteq> []" and "\<exists>f\<in>set required_fields. f \<notin> fst ` set d"
  shows "\<exists>errs. Plants_post sch (PDict d) s = (Response 400 (errors_body errs), s) \<and>
     (\<forall>f\<in>set required_fields. f \<notin> fst ` set d \<longrightarrow> map_of errs f = Some ''This field is required'')"
proof -
  obtain errs where v: "validate_plant_data (PDict d) False = Inr (if errs \<noteq> [] then Some errs else None)"
    and r: "\<forall>f\<in>set required_fields. f \<notin> fst ` set d \<longrightarrow> map_of errs f = Some ''This field is required''"
    using validate_dict [OF assms(1)] by blast
  obtain f where "f \<in> set required_fields" "f \<notin> fst ` set d" using assms(3) by blast
  then have "map_of errs f = Some ''This field is required''" using r by blast
  then have "errs \<noteq> []" by auto
  then have "Plants_post sch (PDict d) s = (Response 400 (errors_body errs), s)"
    using post_validation_failure [OF v] assms(2) by simp
  then show ?thesis using r by blast
qed

lemma post_non_numeric_price:
  assumes "map_of d ''name'' = None \<or> (\<exists>w. map_of d ''name'' = Some (PStr w))"
    and "map_of d ''price'' = Some v" and "\<not> is_int_or_float v"
  shows "\<exists>errs. Plants_post sch (PDict d) s = (Response 400 (errors_body errs), s) \<and>
     map_of errs ''price'' = Some ''Price must be a number''"
proof -
  obtain errs where v: "validate_plant_data (PDict d) False = Inr (if errs \<noteq> [] then Some errs else None)"
    and r: "map_of errs ''price'' = Some ''Price must be a number''"
    using validate_dict [OF assms(1)] assms(2,3) by blast
  have "errs \<noteq> []" using r by auto
  moreover have "d \<noteq> []" using assms(2) by auto
  ultimately have "Plants_post sch (PDict d) s = (Response 400 (errors_body errs), s)"
    using post_validation_failure [OF v] by simp
  then show ?thesis using r by blast
qed


text \<open>
  C10. A create request whose body has a \<open>name\<close> that is not a string: the validator
  raises AttributeError (from \<^verbatim>\<open>.strip()\<close>) instead of returning an error mapping, the
  exception leaves \<^verbatim>\<open>Plants.post\<close> uncaught, the store is untouched and the request is
  answered with status 500, not with a 400 validation response.
\<close>

theorem validator_raises_on_non_string_name:
  assumes "map_of d ''name'' = Some v" and "\<not> is_str v"
  shows "validate_plant_data (PDict d) False = Inl AttributeError \<and>
         Plants_post sch (PDict d) s = (Raised AttributeError, s) \<and>
         http_status (fst (Plants_post sch (PDict d) s)) = 500"
proof -
  obtain errs where r: "check_required required_fields (PDict d) [] = Inr errs"
    using check_required_dict by blast
  have v: "validate_plant_data (PDict d) False = Inl AttributeError"
    by (simp add: validate_plant_data_def r check_name_not_str [OF assms])
  have "d \<noteq> []" using assms(1) by auto
  then show ?thesis using v by (simp add: Plants_post_def)
qed

theorem validator_raises_on_non_string_name_witness:
  "map_of [(''name'', PInt 5), (''image'', PStr ''a.jpg'')] ''name'' = Some (PInt 5) \<and>
   \<not> is_str (PInt 5) \<and>
   validate_plant_data (PDict [(''name'', PInt 5), (''image'', PStr ''a.jpg'')]) False
     = Inl AttributeError \<and>
   Plants_post lax_schema (PDict [(''name'', PInt 5), (''image'', PStr ''a.jpg'')]) (Some [])
     = (Raised AttributeError, Some [])"
  using validator_raises_on_non_string_name
    [of "[(''name'', PInt 5), (''image'', PStr ''a.jpg'')]" "PInt 5" lax_schema "Some []"]
  by simp

section \<open>Partial update\<close>

lemma keys_plant_attrs: "map fst (plant_attrs p) = plant_columns"
  by (simp add: plant_attrs_def plant_columns_def)

lemma key_iff: "k \<in> fst ` set d \<longleftrightarrow> map_of d k \<noteq> None"
  by (simp add: map_of_eq_None_iff)

text \<open>
  The loop of the handler on a JSON object never raises. The columns named in the body
  take the body's values, the other columns keep theirs, and an attribute other than a
  column is recorded exactly when the body names one.
\<close>

lemma set_attrs_dict:
  assumes "set ks \<subseteq> fst ` set d"
  shows "\<exists>cols' ex'. set_attrs sch (map PStr ks) (PDict d) (cols, ex) = Inr (cols', ex') \<and>
     map fst cols' = map fst cols \<and>
     (\<forall>a. map_of cols' a =
        (if a \<in> set ks \<and> a \<in> fst ` set cols then map_of d a else map_of cols a)) \<and>
     (ex' = [] \<longleftrightarrow> ex = [] \<and> (\<forall>k\<in>set ks. k \<in> fst ` set cols \<or> \<not> class_attr sch k))"
  using assms
proof (induction ks arbitrary: cols ex)
  case Nil
  then show ?case by simp
next
  case (Cons k ks)
  then have kd: "k \<in> fst ` set d" and sub: "set ks \<subseteq> fst ` set d" by auto
  then obtain v where v: "map_of d k = Some v"
    by (metis domD dom_map_of_conv_image_fst)
  have g: "py_getitem (PDict d) k = Inr v" using v by simp
  consider (col) "k \<in> fst ` set cols"
    | (other) "k \<notin> fst ` set cols" "class_attr sch k"
    | (none) "k \<notin> fst ` set cols" "\<not> class_attr sch k"
    by blast
  then show ?case
  proof cases
    case col
    have st: "setattr (cols, ex) k v = (AList.update k v cols, ex)"
      using col by (simp add: setattr_def)
    obtain cols' ex' where s: "set_attrs sch (map PStr ks) (PDict d) (AList.update k v cols, ex) = Inr (cols', ex')"
      and f: "map fst cols' = map fst (AList.update k v cols)"
      and m: "\<forall>a. map_of cols' a =
        (if a \<in> set ks \<and> a \<in> fst ` set (AList.update k v cols) then map_of d a
         else map_of (AList.update k v cols) a)"
      and e: "ex' = [] \<longleftrightarrow> ex = [] \<and>
         (\<forall>k'\<in>set ks. k' \<in> fst ` set (AList.update k v cols) \<or> \<not> class_attr sch k')"
      using Cons.IH [OF sub, of "AList.update k v cols" ex] by blast
    have f': "map fst (AList.update k v cols) = map fst cols"
      using col by (simp add: update_keys)
    then have f'': "fst ` set (AList.update k v cols) = fst ` set cols"
      by (metis list.set_map)
    have 1: "set_attrs sch (map PStr (k # ks)) (PDict d) (cols, ex) = Inr (cols', ex')"
      using col g s st by (simp add: hasattr_def)
    have 2: "map fst cols' = map fst cols" using f f' by simp
    have 3: "\<forall>a. map_of cols' a =
        (if a \<in> set (k # ks) \<and> a \<in> fst ` set cols then map_of d a else map_of cols a)"
      using m f'' col v by (auto simp: update_conv')
    have 4: "ex' = [] \<longleftrightarrow> ex = [] \<and>
         (\<forall>k'\<in>set (k # ks). k' \<in> fst ` set cols \<or> \<not> class_attr sch k')"
      using e f'' col by auto
    show ?thesis using 1 2 3 4 by blast
  next
    case other
    have st: "setattr (cols, ex) k v = (cols, AList.update k v ex)"
      using other by (simp add: setattr_def)
    obtain cols' ex' where s: "set_attrs sch (map PStr ks) (PDict d) (cols, AList.update k v ex) = Inr (cols', ex')"
      and f: "map fst cols' = map fst cols"
      and m: "\<forall>a. map_of cols' a =
        (if a \<in> set ks \<and> a \<in> fst ` set cols then map_of d a else map_of cols a)"
      and e: "ex' = [] \<longleftrightarrow> AList.update k v ex = [] \<and>
         (\<forall>k'\<in>set ks. k' \<in> fst ` set cols \<or> \<not> class_attr sch k')"
      using Cons.IH [OF sub, of cols "AList.update k v ex"] by blast
    have 1: "set_attrs sch (map PStr (k # ks)) (PDict d) (cols, ex) = Inr (cols', ex')"
      using other g s st by (simp add: hasattr_def)
    have 3: "\<forall>a. map_of cols' a =
        (if a \<in> set (k # ks) \<and> a \<in> fst ` set cols then map_of d a else map_of cols a)"
      using m other by auto
    have 4: "ex' = [] \<longleftrightarrow> ex = [] \<and>
         (\<forall>k'\<in>set (k # ks). k' \<in> fst ` set cols \<or> \<not> class_attr sch k')"
      using e other by auto
    show ?thesis using 1 f 3 4 by blast
  next
    case none
    obtain cols' ex' where s: "set_attrs sch (map PStr ks) (PDict d) (cols, ex) = Inr (cols', ex')"
      and f: "map fst cols' = map fst cols"
      and m: "\<forall>a. map_of cols' a =
        (if a \<in> set ks \<and> a \<in> fst ` set cols then map_of d a else map_of cols a)"
      and e: "ex' = [] \<longleftrightarrow> ex = [] \<and>
         (\<forall>k'\<in>set ks. k' \<in> fst ` set cols \<or> \<not> class_attr sch k')"
      using Cons.IH [OF sub, of cols ex] by blast
    have 1: "set_attrs sch (map PStr (k # ks)) (PDict d) (cols, ex) = Inr (cols', ex')"
      using none s by (simp add: hasattr_def)
    have 3: "\<forall>a. map_of cols' a =
        (if a \<in> set (k # ks) \<and> a \<in> fst ` set cols then map_of d a else map_of cols a)"
      using m none by auto
    have 4: "ex' = [] \<longleftrightarrow> ex = [] \<and>
         (\<forall>k'\<in>set (k # ks). k' \<in> fst ` set cols \<or> \<not> class_attr sch k')"
      using e none by auto
    show ?thesis using 1 f 3 4 by blast
  qed
qed

lemma patch_dict:
  assumes "query_first i rows = Inr (Some p)" and "d \<noteq> []"
  shows "\<exists>cols ex. map fst cols = plant_columns \<and>
     (\<forall>a. map_of cols a =
        (if a \<in> set plant_columns \<and> a \<in> fst ` set d then map_of d a
         else map_of (plant_attrs p) a)) \<and>
     (ex = [] \<longleftrightarrow> (\<forall>k\<in>fst ` set d. k \<in> set plant_columns \<or> \<not> class_attr sch k)) \<and>
     PlantByID_patch sch i (PDict d) (Some rows) = commit_and_respond sch i (cols, ex) rows"
proof -
  obtain cols ex
    where s: "set_attrs sch (map PStr (map fst d)) (PDict d) (plant_attrs p, []) = Inr (cols, ex)"
    and f: "map fst cols = map fst (plant_attrs p)"
    and m: "\<forall>a. map_of cols a =
        (if a \<in> set (map fst d) \<and> a \<in> fst ` set (plant_attrs p) then map_of d a
         else map_of (plant_attrs p) a)"
    and e: "ex = [] \<longleftrightarrow> [] = ([] :: attrs) \<and>
         (\<forall>k\<in>set (map fst d). k \<in> fst ` set (plant_attrs p) \<or> \<not> class_attr sch k)"
    using set_attrs_dict [of "map fst d" d sch "plant_attrs p" "[]"] by auto
  have c: "fst ` set (plant_attrs p) = set plant_columns"
    by (metis keys_plant_attrs list.set_map)
  have eq: "PlantByID_patch sch i (PDict d) (Some rows) = commit_and_respond sch i (cols, ex) rows"
  proof -
    have s': "set_attrs sch (map (\<lambda>kv. PStr (fst kv)) d) (PDict d) (plant_attrs p, []) = Inr (cols, ex)"
      using s by (simp add: comp_def)
    show ?thesis
      using assms by (simp add: PlantByID_patch_def s')
  qed
  have m': "\<forall>a. map_of cols a =
        (if a \<in> set plant_columns \<and> a \<in> fst ` set d then map_of d a
         else map_of (plant_attrs p) a)"
    using m c by auto
  have e': "ex = [] \<longleftrightarrow> (\<forall>k\<in>fst ` set d. k \<in> set plant_columns \<or> \<not> class_attr sch k)"
    using e c by auto
  have fo: "map fst cols = plant_columns"
    using f keys_plant_attrs by simp
  show ?thesis
    by (intro exI [of _ cols] exI [of _ ex] conjI fo m' e' eq)
qed

lemma attrs_shape:
  assumes "map fst obj = plant_columns"
  shows "\<exists>v0 v1 v2 v3 v4. obj =
     [(''id'', v0), (''name'', v1), (''image'', v2), (''price'', v3), (''is_in_stock'', v4)]"
proof -
  obtain x0 x1 x2 x3 x4 where o: "obj = [x0, x1, x2, x3, x4]"
    and k: "fst x0 = ''id''" "fst x1 = ''name''" "fst x2 = ''image''" "fst x3 = ''price''"
      "fst x4 = ''is_in_stock''"
    using assms unfolding plant_columns_def by (auto simp: map_eq_Cons_conv)
  have "x0 = (''id'', snd x0)" "x1 = (''name'', snd x1)" "x2 = (''image'', snd x2)"
    "x3 = (''price'', snd x3)" "x4 = (''is_in_stock'', snd x4)"
    using k by (metis prod.collapse)+
  then show ?thesis using o by blast
qed

lemma plant_of_attrs_values:
  assumes "plant_of_attrs obj = Some q" and "map fst obj = plant_columns"
  shows "plant_attrs q = obj"
proof -
  obtain v0 v1 v2 v3 v4 where o: "obj =
     [(''id'', v0), (''name'', v1), (''image'', v2), (''price'', v3), (''is_in_stock'', v4)]"
    using attrs_shape [OF assms(2)] by blast
  have i: "map_of obj ''id'' = Some v0" by (simp add: o)
  obtain n where n: "v0 = PInt n"
    using assms(1) i by (cases v0) (simp_all add: plant_of_attrs_def)
  have "attr_value obj ''name'' = v1" "attr_value obj ''image'' = v2"
    "attr_value obj ''price'' = v3" "attr_value obj ''is_in_stock'' = v4"
    by (simp_all add: o attr_value_def)
  then have "q = \<lparr>plant_id = n, plant_name = v1, plant_image = v2, plant_price = v3,
                plant_is_in_stock = v4\<rparr>"
    using assms(1) i n by (simp add: plant_of_attrs_def)
  then show ?thesis by (simp add: plant_attrs_def o n)
qed

lemma commit_update_Some:
  assumes "commit_update sch i obj rows = Some (q, rows')"
  shows "plant_of_attrs obj = Some q \<and> rows' = update_rows i q rows \<and>
         row_check sch q = Committed \<and> sqlite_int (plant_id q) \<and>
         (plant_id q = i \<or> plant_id q \<notin> set (map plant_id rows))"
  using assms by (auto simp: commit_update_def split: option.splits if_splits)

text \<open>The fields of a row whose attributes are the merged ones, one by one.\<close>

lemma merged_fields:
  assumes "\<forall>a. map_of (plant_attrs q) a =
        (if a \<in> set plant_columns \<and> a \<in> fst ` set d then map_of d a
         else map_of (plant_attrs p) a)"
  shows "PInt (plant_id q) = (case map_of d ''id'' of Some v \<Rightarrow> v | None \<Rightarrow> PInt (plant_id p))"
    and "plant_name q = (case map_of d ''name'' of Some v \<Rightarrow> v | None \<Rightarrow> plant_name p)"
    and "plant_image q = (case map_of d ''image'' of Some v \<Rightarrow> v | None \<Rightarrow> plant_image p)"
    and "plant_price q = (case map_of d ''price'' of Some v \<Rightarrow> v | None \<Rightarrow> plant_price p)"
    and "plant_is_in_stock q =
           (case map_of d ''is_in_stock'' of Some v \<Rightarrow> v | None \<Rightarrow> plant_is_in_stock p)"
proof -
  have a: "map_of (plant_attrs q) ''id'' =
        (if ''id'' \<in> fst ` set d then map_of d ''id'' else map_of (plant_attrs p) ''id'')"
    using assms by (simp add: plant_columns_def)
  then show "PInt (plant_id q) = (case map_of d ''id'' of Some v \<Rightarrow> v | None \<Rightarrow> PInt (plant_id p))"
    by (cases "map_of d ''id''") (auto simp: key_iff plant_attrs_def)
  have b: "map_of (plant_attrs q) ''name'' =
        (if ''name'' \<in> fst ` set d then map_of d ''name'' else map_of (plant_attrs p) ''name'')"
    using assms by (simp add: plant_columns_def)
  then show "plant_name q = (case map_of d ''name'' of Some v \<Rightarrow> v | None \<Rightarrow> plant_name p)"
    by (cases "map_of d ''name''") (auto simp: key_iff plant_attrs_def)
  have c: "map_of (plant_attrs q) ''image'' =
        (if ''image'' \<in> fst ` set d then map_of d ''image'' else map_of (plant_attrs p) ''image'')"
    using assms by (simp add: plant_columns_def)
  then show "plant_image q = (case map_of d ''image'' of Some v \<Rightarrow> v | None \<Rightarrow> plant_image p)"
    by (cases "map_of d ''image''") (auto simp: key_iff plant_attrs_def)
  have e: "map_of (plant_attrs q) ''price'' =
        (if ''price'' \<in> fst ` set d then map_of d ''price'' else map_of (plant_attrs p) ''price'')"
    using assms by (simp add: plant_columns_def)
  then show "plant_price q = (case map_of d ''price'' of Some v \<Rightarrow> v | None \<Rightarrow> plant_price p)"
    by (cases "map_of d ''price''") (auto simp: key_iff plant_attrs_def)
  have f: "map_of (plant_attrs q) ''is_in_stock'' =
        (if ''is_in_stock'' \<in> fst ` set d then map_of d ''is_in_stock''
         else map_of (plant_attrs p) ''is_in_stock'')"
    using assms by (simp add: plant_columns_def)
  then show "plant_is_in_stock q =
           (case map_of d ''is_in_stock'' of Some v \<Rightarrow> v | None \<Rightarrow> plant_is_in_stock p)"
    by (cases "map_of d ''is_in_stock''") (auto simp: key_iff plant_attrs_def)
qed

lemma length_update_rows: "length (update_rows i q rows) = length rows"
  by (simp add: update_rows_def)

lemma nth_update_rows:
  "k < length rows \<Longrightarrow>
   update_rows i q rows ! k = (if plant_id (rows ! k) = i then q else rows ! k)"
  by (simp add: update_rows_def)

lemma query_first_found:
  "query_first i rows = Inr (Some p) \<Longrightarrow> sqlite_int i \<and> find (\<lambda>r. plant_id r = i) rows = Some p"
  by (auto simp: query_first_def split: if_splits)

lemma query_first_id: "query_first i rows = Inr (Some p) \<Longrightarrow> plant_id p = i \<and> p \<in> set rows"
proof -
  assume "query_first i rows = Inr (Some p)"
  then have "find (\<lambda>r. plant_id r = i) rows = Some p" using query_first_found by blast
  then show ?thesis by (metis (mono_tags, lifting) find_Some_iff nth_mem)
qed

text \<open>
  Every way through \<^verbatim>\<open>PlantByID.patch\<close>: the answer is 200, 400, 404 or 500, and unless the
  store is left as it was, the found row was replaced by the row the commit wrote.
\<close>

lemma commit_and_respond_cases:
  assumes "commit_and_respond sch i obj rows = (out, s')"
  shows "(s' = Some rows \<and> http_status out = 500) \<or>
         (\<exists>q. commit_update sch i (fst obj) rows = Some (q, update_rows i q rows) \<and>
              s' = Some (update_rows i q rows) \<and>
              (http_status out = 200 \<or> http_status out = 500) \<and>
              (snd obj = [] \<longrightarrow> out = Response 200 (to_dict q)))"
proof (cases "commit_update sch i (fst obj) rows")
  case None
  then show ?thesis using assms by (auto simp: commit_and_respond_def)
next
  case (Some qr)
  obtain q rows' where qr: "qr = (q, rows')" by (cases qr)
  have r: "rows' = update_rows i q rows"
    using commit_update_Some Some qr by blast
  show ?thesis
  proof (cases "snd obj = []")
    case True
    then show ?thesis using assms Some qr r by (auto simp: commit_and_respond_def)
  next
    case False
    then show ?thesis
      using assms Some qr r
      by (cases "class_attr_effect sch (snd obj) q") (auto simp: commit_and_respond_def)
  qed
qed

lemma patch_cases:
  assumes "PlantByID_patch sch i data (Some rows) = (out, s')"
  shows "(s' = Some rows \<and> http_status out \<in> {400, 404, 500}) \<or>
         (\<exists>p ks obj q. query_first i rows = Inr (Some p) \<and> py_truthy data \<and>
              py_iter data = Inr ks \<and>
              set_attrs sch ks data (plant_attrs p, []) = Inr obj \<and>
              commit_update sch i (fst obj) rows = Some (q, update_rows i q rows) \<and>
              s' = Some (update_rows i q rows) \<and>
              (http_status out = 200 \<or> http_status out = 500) \<and>
              (snd obj = [] \<longrightarrow> out = Response 200 (to_dict q)))"
proof (cases "query_first i rows")
  case (Inl e)
  then show ?thesis using assms by (auto simp: PlantByID_patch_def)
next
  case (Inr found)
  show ?thesis
  proof (cases found)
    case None
    then show ?thesis using assms Inr by (auto simp: PlantByID_patch_def)
  next
    case (Some p)
    show ?thesis
    proof (cases "py_truthy data")
      case False
      then show ?thesis using assms Inr Some by (auto simp: PlantByID_patch_def)
    next
      case True
      show ?thesis
      proof (cases "py_iter data")
        case (Inl e)
        then show ?thesis using assms Inr Some True by (auto simp: PlantByID_patch_def)
      next
        case ks: (Inr ks)
        show ?thesis
        proof (cases "set_attrs sch ks data (plant_attrs p, [])")
          case (Inl e)
          then show ?thesis using assms Inr Some True ks by (auto simp: PlantByID_patch_def)
        next
          case obj: (Inr obj)
          have "commit_and_respond sch i obj rows = (out, s')"
            using assms Inr Some True ks obj by (simp add: PlantByID_patch_def)
          from commit_and_respond_cases [OF this]
          consider (same) "s' = Some rows" "http_status out = 500"
            | (written) q where "commit_update sch i (fst obj) rows = Some (q, update_rows i q rows)"
                "s' = Some (update_rows i q rows)"
                "http_status out = 200 \<or> http_status out = 500"
                "snd obj = [] \<longrightarrow> out = Response 200 (to_dict q)"
            by blast
          then show ?thesis
          proof cases
            case same
            then show ?thesis by simp
          next
            case written
            have f: "query_first i rows = Inr (Some p)" using Inr Some by simp
            show ?thesis
              using f True ks obj written by blast
          qed
        qed
      qed
    qed
  qed
qed

lemma patch_ok:
  assumes "PlantByID_patch sch i data (Some rows) = (out, s')" and "http_status out = 200"
  shows "\<exists>p ks obj q. query_first i rows = Inr (Some p) \<and> py_truthy data \<and>
              py_iter data = Inr ks \<and>
              set_attrs sch ks data (plant_attrs p, []) = Inr obj \<and>
              commit_update sch i (fst obj) rows = Some (q, update_rows i q rows) \<and>
              s' = Some (update_rows i q rows) \<and>
              (http_status out = 200 \<or> http_status out = 500) \<and>
              (snd obj = [] \<longrightarrow> out = Response 200 (to_dict q))"
  using patch_cases [OF assms(1)]
proof (rule disjE)
  assume "s' = Some rows \<and> http_status out \<in> {400, 404, 500}"
  then show ?thesis using assms(2) by simp
qed

text \<open>
  C8. A successful partial update (status 200) with a JSON object as body. The table
  keeps its length; every row stored under the requested id is replaced by one row \<open>q\<close>
  and every other row is as it was. In \<open>q\<close>, each of the five attributes that the body
  names has the body's value and each attribute that the body does not name has the value
  of the record found under the id. When the body names no attribute beyond the five,
  the answer is that row.
\<close>

theorem partial_update_merges:
  assumes "PlantByID_patch sch i (PDict d) s = (out, s')" and "http_status out = 200"
  shows "\<exists>rows rows' p q. s = Some rows \<and> s' = Some rows' \<and>
     find (\<lambda>r. plant_id r = i) rows = Some p \<and>
     length rows' = length rows \<and>
     (\<forall>k<length rows. rows' ! k = (if plant_id (rows ! k) = i then q else rows ! k)) \<and>
     PInt (plant_id q) = (case map_of d ''id'' of Some v \<Rightarrow> v | None \<Rightarrow> PInt (plant_id p)) \<and>
     plant_name q = (case map_of d ''name'' of Some v \<Rightarrow> v | None \<Rightarrow> plant_name p) \<and>
     plant_image q = (case map_of d ''image'' of Some v \<Rightarrow> v | None \<Rightarrow> plant_image p) \<and>
     plant_price q = (case map_of d ''price'' of Some v \<Rightarrow> v | None \<Rightarrow> plant_price p) \<and>
     plant_is_in_stock q =
       (case map_of d ''is_in_stock'' of Some v \<Rightarrow> v | None \<Rightarrow> plant_is_in_stock p) \<and>
     ((\<forall>k\<in>fst ` set d. k \<in> set [''id'', ''name'', ''image'', ''price'', ''is_in_stock'']) \<longrightarrow>
        out = Response 200
                (PDict [(''id'', PInt (plant_id q)), (''name'', plant_name q),
                        (''image'', plant_image q), (''price'', plant_price q),
                        (''is_in_stock'', plant_is_in_stock q)]))"
proof -
  have "s \<noteq> None"
  proof
    assume "s = None"
    then have "out = Response 500 (error_body ''Server error occurred'')"
      using assms(1) by (simp add: PlantByID_patch_def)
    then show False using assms(2) by simp
  qed
  then obtain rows where s: "s = Some rows" by blast
  have pr: "PlantByID_patch sch i (PDict d) (Some rows) = (out, s')"
    using assms(1) s by simp
  obtain p where p: "query_first i rows = Inr (Some p)" and t: "py_truthy (PDict d)"
    using patch_ok [OF pr assms(2)] by blast
  have d: "d \<noteq> []" using t by simp
  from patch_dict [OF p d, of sch]
  obtain cols where "\<exists>ex. map fst cols = plant_columns \<and>
     (\<forall>a. map_of cols a =
        (if a \<in> set plant_columns \<and> a \<in> fst ` set d then map_of d a
         else map_of (plant_attrs p) a)) \<and>
     (ex = [] \<longleftrightarrow> (\<forall>k\<in>fst ` set d. k \<in> set plant_columns \<or> \<not> class_attr sch k)) \<and>
     PlantByID_patch sch i (PDict d) (Some rows) = commit_and_respond sch i (cols, ex) rows" ..
  then obtain ex where ce: "map fst cols = plant_columns \<and>
     (\<forall>a. map_of cols a =
        (if a \<in> set plant_columns \<and> a \<in> fst ` set d then map_of d a
         else map_of (plant_attrs p) a)) \<and>
     (ex = [] \<longleftrightarrow> (\<forall>k\<in>fst ` set d. k \<in> set plant_columns \<or> \<not> class_attr sch k)) \<and>
     PlantByID_patch sch i (PDict d) (Some rows) = commit_and_respond sch i (cols, ex) rows" ..
  have k: "map fst cols = plant_columns"
    and m: "\<forall>a. map_of cols a =
        (if a \<in> set plant_columns \<and> a \<in> fst ` set d then map_of d a
         else map_of (plant_attrs p) a)"
    and x: "ex = [] \<longleftrightarrow> (\<forall>k\<in>fst ` set d. k \<in> set plant_columns \<or> \<not> class_attr sch k)"
    and e: "PlantByID_patch sch i (PDict d) (Some rows) = commit_and_respond sch i (cols, ex) rows"
    using ce by (rule conjunct1, rule conjunct2 [THEN conjunct1],
        rule conjunct2 [THEN conjunct2, THEN conjunct1],
        rule conjunct2 [THEN conjunct2, THEN conjunct2])
  have "commit_and_respond sch i (cols, ex) rows = (out, s')"
    using pr e by simp
  from commit_and_respond_cases [OF this]
  have "(s' = Some rows \<and> http_status out = 500) \<or>
         (\<exists>q. commit_update sch i cols rows = Some (q, update_rows i q rows) \<and>
              s' = Some (update_rows i q rows) \<and>
              (http_status out = 200 \<or> http_status out = 500) \<and>
              (ex = [] \<longrightarrow> out = Response 200 (to_dict q)))"
    by simp
  moreover have "\<not> (s' = Some rows \<and> http_status out = 500)" using assms(2) by simp
  ultimately have "\<exists>q. commit_update sch i cols rows = Some (q, update_rows i q rows) \<and>
              s' = Some (update_rows i q rows) \<and>
              (http_status out = 200 \<or> http_status out = 500) \<and>
              (ex = [] \<longrightarrow> out = Response 200 (to_dict q))"
    by blast
  then obtain q
    where c: "commit_update sch i cols rows = Some (q, update_rows i q rows)"
      and s': "s' = Some (update_rows i q rows)"
      and o: "ex = [] \<longrightarrow> out = Response 200 (to_dict q)"
    by blast
  have "plant_of_attrs cols = Some q"
    using commit_update_Some [OF c] by simp
  then have "plant_attrs q = cols"
    using plant_of_attrs_values k by blast
  then have mq: "\<forall>a. map_of (plant_attrs q) a =
        (if a \<in> set plant_columns \<and> a \<in> fst ` set d then map_of d a
         else map_of (plant_attrs p) a)"
    using m by simp
  have body: "(\<forall>k\<in>fst ` set d. k \<in> set [''id'', ''name'', ''image'', ''price'', ''is_in_stock'']) \<longrightarrow>
        out = Response 200
                (PDict [(''id'', PInt (plant_id q)), (''name'', plant_name q),
                        (''image'', plant_image q), (''price'', plant_price q),
                        (''is_in_stock'', plant_is_in_stock q)])"
  proof
    assume "\<forall>k\<in>fst ` set d. k \<in> set [''id'', ''name'', ''image'', ''price'', ''is_in_stock'']"
    then have "\<forall>k\<in>fst ` set d. k \<in> set plant_columns \<or> \<not> class_attr sch k"
      unfolding plant_columns_def by blast
    then have "ex = []" by (simp only: x)
    then show "out = Response 200
                (PDict [(''id'', PInt (plant_id q)), (''name'', plant_name q),
                        (''image'', plant_image q), (''price'', plant_price q),
                        (''is_in_stock'', plant_is_in_stock q)])"
      using o by (simp add: to_dict_def plant_attrs_def)
  qed
  have f: "find (\<lambda>r. plant_id r = i) rows = Some p"
    using query_first_found [OF p] by simp
  have l: "length (update_rows i q rows) = length rows"
    by (rule length_update_rows)
  have n: "\<forall>k<length rows. update_rows i q rows ! k =
      (if plant_id (rows ! k) = i then q else rows ! k)"
    using nth_update_rows by blast
  show ?thesis
    by (intro exI [of _ rows] exI [of _ "update_rows i q rows"] exI [of _ p] exI [of _ q]
        conjI s s' f l n merged_fields [OF mq] body)
qed

theorem partial_update_merges_witness:
  "PlantByID_patch lax_schema 1 (PDict [(''name'', PStr ''Ivy''), (''is_in_stock'', PBool False)]) (Some [test_plant, fern_plant]) =
     (Response 200
        (PDict [(''id'', PInt 1), (''name'', PStr ''Ivy''), (''image'', PStr ''test.jpg''),
                (''price'', PFloat 9.99), (''is_in_stock'', PBool False)]),
      Some [\<lparr>plant_id = 1, plant_name = PStr ''Ivy'', plant_image = PStr ''test.jpg'',
             plant_price = PFloat 9.99, plant_is_in_stock = PBool False\<rparr>,
            fern_plant]) \<and>
   (\<exists>rows rows' p q. Some [test_plant, fern_plant] = Some rows \<and>
     Some [\<lparr>plant_id = 1, plant_name = PStr ''Ivy'', plant_image = PStr ''test.jpg'',
             plant_price = PFloat 9.99, plant_is_in_stock = PBool False\<rparr>,
           fern_plant] = Some rows' \<and>
     find (\<lambda>r. plant_id r = 1) rows = Some p \<and>
     length rows' = length rows \<and>
     (\<forall>k<length rows. rows' ! k = (if plant_id (rows ! k) = 1 then q else rows ! k)) \<and>
     PInt (plant_id q) = (case map_of [(''name'', PStr ''Ivy''), (''is_in_stock'', PBool False)] ''id'' of Some v \<Rightarrow> v | None \<Rightarrow> PInt (plant_id p)) \<and>
     plant_name q = (case map_of [(''name'', PStr ''Ivy''), (''is_in_stock'', PBool False)] ''name'' of Some v \<Rightarrow> v | None \<Rightarrow> plant_name p) \<and>
     plant_image q = (case map_of [(''name'', PStr ''Ivy''), (''is_in_stock'', PBool False)] ''image'' of Some v \<Rightarrow> v | None \<Rightarrow> plant_image p) \<and>
     plant_price q = (case map_of [(''name'', PStr ''Ivy''), (''is_in_stock'', PBool False)] ''price'' of Some v \<Rightarrow> v | None \<Rightarrow> plant_price p) \<and>
     plant_is_in_stock q =
       (case map_of [(''name'', PStr ''Ivy''), (''is_in_stock'', PBool False)] ''is_in_stock'' of Some v \<Rightarrow> v | None \<Rightarrow> plant_is_in_stock p) \<and>
     ((\<forall>k\<in>fst ` set [(''name'', PStr ''Ivy''), (''is_in_stock'', PBool False)]. k \<in> set [''id'', ''name'', ''image'', ''price'', ''is_in_stock'']) \<longrightarrow>
        Response 200
          (PDict [(''id'', PInt 1), (''name'', PStr ''Ivy''), (''image'', PStr ''test.jpg''),
                  (''price'', PFloat 9.99), (''is_in_stock'', PBool False)]) =
        Response 200
                (PDict [(''id'', PInt (plant_id q)), (''name'', plant_name q),
                        (''image'', plant_image q), (''price'', plant_price q),
                        (''is_in_stock'', plant_is_in_stock q)])))"
proof -
  have e: "PlantByID_patch lax_schema 1 (PDict [(''name'', PStr ''Ivy''), (''is_in_stock'', PBool False)]) (Some [test_plant, fern_plant]) =
     (Response 200
        (PDict [(''id'', PInt 1), (''name'', PStr ''Ivy''), (''image'', PStr ''test.jpg''),
                (''price'', PFloat 9.99), (''is_in_stock'', PBool False)]),
      Some [\<lparr>plant_id = 1, plant_name = PStr ''Ivy'', plant_image = PStr ''test.jpg'',
             plant_price = PFloat 9.99, plant_is_in_stock = PBool False\<rparr>,
            fern_plant])"
    by (simp add: PlantByID_patch_def query_first_def sqlite_int_def test_plant_def
        fern_plant_def plant_attrs_def hasattr_def setattr_def commit_and_respond_def
        commit_update_def plant_of_attrs_def attr_value_def lax_schema_def update_rows_def
        to_dict_def)
  have h: "http_status (Response 200
        (PDict [(''id'', PInt 1), (''name'', PStr ''Ivy''), (''image'', PStr ''test.jpg''),
                (''price'', PFloat 9.99), (''is_in_stock'', PBool False)])) = 200"
    by simp
  show ?thesis
    using e partial_update_merges [OF e h] by (intro conjI)
qed

lemma set_attrs_nondict:
  "\<forall>d. data \<noteq> PDict d \<Longrightarrow> set_attrs sch ks data obj = Inr obj' \<Longrightarrow> obj' = obj"
proof (induction sch ks data obj rule: set_attrs.induct)
  case (2 sch attr rest data obj)
  have "py_getitem data attr = Inl TypeError"
    using "2.prems"(1) by (cases data) simp_all
  then show ?case using 2 by (auto split: if_splits)
qed simp_all

lemma setattr_other: "a \<noteq> k \<Longrightarrow> map_of (fst (setattr obj a v)) k = map_of (fst obj) k"
  by (simp add: setattr_def update_conv')

lemma set_attrs_keeps:
  "PStr k \<notin> set ks \<Longrightarrow> set_attrs sch ks data obj = Inr obj' \<Longrightarrow>
   map_of (fst obj') k = map_of (fst obj) k"
proof (induction sch ks data obj rule: set_attrs.induct)
  case (2 sch attr rest data obj)
  have n: "attr \<noteq> k" "PStr k \<notin> set rest" using "2.prems"(1) by auto
  show ?case
  proof (cases "hasattr sch obj attr")
    case True
    then obtain v where v: "py_getitem data attr = Inr v"
      and r: "set_attrs sch rest data (setattr obj attr v) = Inr obj'"
      using "2.prems"(2) by (cases "py_getitem data attr") auto
    have "map_of (fst obj') k = map_of (fst (setattr obj attr v)) k"
      using "2.IH"(1) [OF True v n(2) r] .
    then show ?thesis using setattr_other [OF n(1)] by simp
  next
    case False
    then have "set_attrs sch rest data obj = Inr obj'" using "2.prems"(2) by simp
    then show ?thesis using "2.IH"(2) [OF False n(2)] by simp
  qed
qed simp_all

lemma ids_update_rows:
  "plant_id q = i \<Longrightarrow> map plant_id (update_rows i q rows) = map plant_id rows"
  by (induction rows) (auto simp: update_rows_def)

text \<open>A partial update whose body has no \<open>id\<close> key leaves the ids of the table alone.\<close>

lemma patch_keeps_ids:
  assumes "\<forall>d. data = PDict d \<longrightarrow> ''id'' \<notin> fst ` set d"
    and "PlantByID_patch sch i data (Some rows) = (out, s')"
  shows "\<exists>rows'. s' = Some rows' \<and> map plant_id rows' = map plant_id rows"
  using patch_cases [OF assms(2)]
proof (rule disjE)
  assume "s' = Some rows \<and> http_status out \<in> {400, 404, 500}"
  then show ?thesis by simp
next
  assume "\<exists>p ks obj q. query_first i rows = Inr (Some p) \<and> py_truthy data \<and>
              py_iter data = Inr ks \<and>
              set_attrs sch ks data (plant_attrs p, []) = Inr obj \<and>
              commit_update sch i (fst obj) rows = Some (q, update_rows i q rows) \<and>
              s' = Some (update_rows i q rows) \<and>
              (http_status out = 200 \<or> http_status out = 500) \<and>
              (snd obj = [] \<longrightarrow> out = Response 200 (to_dict q))"
  then obtain p ks obj q where p: "query_first i rows = Inr (Some p)"
    and ks: "py_iter data = Inr ks"
    and obj: "set_attrs sch ks data (plant_attrs p, []) = Inr obj"
    and c: "commit_update sch i (fst obj) rows = Some (q, update_rows i q rows)"
    and s': "s' = Some (update_rows i q rows)"
    by blast
  have i: "map_of (fst obj) ''id'' = map_of (plant_attrs p) ''id''"
  proof (cases "\<exists>d. data = PDict d")
    case True
    then obtain d where d: "data = PDict d" by blast
    then have "''id'' \<notin> fst ` set d" using assms(1) by simp
    then have "PStr ''id'' \<notin> set ks" using ks d by auto
    then show ?thesis using set_attrs_keeps [OF _ obj] by simp
  next
    case False
    then have "obj = (plant_attrs p, [])" using set_attrs_nondict obj by blast
    then show ?thesis by simp
  qed
  have "plant_of_attrs (fst obj) = Some q"
    using commit_update_Some [OF c] by simp
  then have "plant_id q = plant_id p"
    using i by (auto simp: plant_of_attrs_def plant_attrs_def split: option.splits pyval.splits)
  then have "map plant_id (update_rows i q rows) = map plant_id rows"
    using ids_update_rows query_first_id [OF p] by simp
  then show ?thesis using s' by simp
qed

section \<open>Identifiers\<close>

lemma post_rows:
  assumes "Plants_post sch data s = (out, s')"
  shows "s' = s \<or> (\<exists>rows p. s = Some rows \<and> s' = Some (rows @ [p]))"
  using assms
  by (auto simp: Plants_post_def post_try_def Let_def
      split: if_splits sum.splits option.splits commit_result.splits)

lemma delete_rows_result:
  assumes "PlantByID_delete sch i s = (out, s')"
  shows "s' = s \<or> (\<exists>rows. s = Some rows \<and> s' = Some (delete_rows i rows))"
  using assms
  by (auto simp: PlantByID_delete_def split: option.splits sum.splits commit_result.splits)

lemma get_rows: "PlantByID_get i s = (out, s') \<Longrightarrow> s' = Some (bootstrap s)"
  by (auto simp: PlantByID_get_def Let_def split: option.splits sum.splits)

lemma list_rows: "Plants_get s = (out, s') \<Longrightarrow> s' = s"
  by (auto simp: Plants_get_def Let_def split: option.splits)

lemma patch_None: "PlantByID_patch sch i data None = (out, s') \<Longrightarrow> s' = None"
  by (simp add: PlantByID_patch_def)

text \<open>
  C1, as the program has it. A request other than a partial update whose JSON object has
  an \<open>id\<close> key leaves every record its id: the sequence of ids in the table is unchanged
  (list, get, partial update, any request that fails), or one record is appended (create,
  and the seed row of get-by-id), or the records of one id are removed and the others are
  untouched (delete).
\<close>

theorem ids_kept_unless_patched:
  assumes "\<not> sets_id r" and "handle sch r s = (out, s')"
  shows "map plant_id (stored s') = map plant_id (stored s) \<or>
         (\<exists>p. stored s' = stored s @ [p]) \<or>
         (\<exists>i. stored s' = filter (\<lambda>p. plant_id p \<noteq> i) (stored s))"
proof (cases r)
  case ListPlants
  then show ?thesis using assms list_rows by auto
next
  case (CreatePlant data)
  then have "Plants_post sch data s = (out, s')" using assms by simp
  from post_rows [OF this] show ?thesis by (auto simp: stored_def)
next
  case (GetPlant i)
  then have "s' = Some (bootstrap s)" using assms get_rows by auto
  then show ?thesis by (cases s) (auto simp: stored_def bootstrap_def)
next
  case (PatchPlant i data)
  then have p: "PlantByID_patch sch i data s = (out, s')" using assms by simp
  have n: "\<forall>d. data = PDict d \<longrightarrow> ''id'' \<notin> fst ` set d"
    using assms(1) PatchPlant by force
  show ?thesis
  proof (cases s)
    case None
    then have "s' = s" using p patch_None by blast
    then show ?thesis by simp
  next
    case (Some rows)
    then obtain rows' where "s' = Some rows'" "map plant_id rows' = map plant_id rows"
      using patch_keeps_ids [OF n] p by blast
    then show ?thesis using Some by (simp add: stored_def)
  qed
next
  case (DeletePlant i)
  then have "PlantByID_delete sch i s = (out, s')" using assms by simp
  from delete_rows_result [OF this] show ?thesis by (auto simp: stored_def delete_rows_def)
qed

theorem ids_kept_unless_patched_witness:
  "\<not> sets_id (PatchPlant 1 (PDict [(''price'', PInt 7)])) \<and>
   handle lax_schema (PatchPlant 1 (PDict [(''price'', PInt 7)])) (Some [test_plant, fern_plant]) =
     (Response 200 (to_dict (test_plant\<lparr>plant_price := PInt 7\<rparr>)),
      Some [test_plant\<lparr>plant_price := PInt 7\<rparr>, fern_plant]) \<and>
   map plant_id (stored (Some [test_plant\<lparr>plant_price := PInt 7\<rparr>, fern_plant])) =
     map plant_id (stored (Some [test_plant, fern_plant]))"
proof -
  have n: "\<not> sets_id (PatchPlant 1 (PDict [(''price'', PInt 7)]))" by simp
  have e: "handle lax_schema (PatchPlant 1 (PDict [(''price'', PInt 7)])) (Some [test_plant, fern_plant]) =
     (Response 200 (to_dict (test_plant\<lparr>plant_price := PInt 7\<rparr>)),
      Some [test_plant\<lparr>plant_price := PInt 7\<rparr>, fern_plant])"
    by (simp add: PlantByID_patch_def query_first_def sqlite_int_def test_plant_def
        fern_plant_def plant_attrs_def hasattr_def setattr_def commit_and_respond_def
        commit_update_def plant_of_attrs_def attr_value_def lax_schema_def update_rows_def)
  show ?thesis
    using n e ids_kept_unless_patched [OF n e]
    by (simp add: stored_def test_plant_def fern_plant_def)
qed

text \<open>
  A partial update whose body has an \<open>id\<close> key overwrites the id like any other
  attribute: the record stored under id 1 is stored under id 2 afterwards.
\<close>

theorem patch_overwrites_id:
  "handle lax_schema (PatchPlant 1 (PDict [(''id'', PInt 2)])) (Some [test_plant]) =
     (Response 200 (to_dict (test_plant\<lparr>plant_id := 2\<rparr>)), Some [test_plant\<lparr>plant_id := 2\<rparr>]) \<and>
   map plant_id (stored (Some [test_plant])) = [1] \<and>
   map plant_id (stored (Some [test_plant\<lparr>plant_id := 2\<rparr>])) = [2]"
  by (simp add: PlantByID_patch_def query_first_def sqlite_int_def test_plant_def plant_attrs_def
        hasattr_def setattr_def commit_and_respond_def commit_update_def plant_of_attrs_def
        attr_value_def lax_schema_def update_rows_def stored_def)

section \<open>The empty name: create against partial update\<close>




section \<open>Create, then get by id\<close>

lemma foldl_max_ge: "(m::int) \<le> foldl max m xs"
  by (induction xs arbitrary: m) (auto intro: order_trans [OF max.cobounded1])

lemma foldl_max_mem: "(x::int) \<in> set xs \<Longrightarrow> x \<le> foldl max m xs"
proof (induction xs arbitrary: m)
  case Nil
  then show ?case by simp
next
  case (Cons y ys)
  show ?case
  proof (cases "x = y")
    case True
    have "y \<le> max m y" by simp
    also have "\<dots> \<le> foldl max (max m y) ys" by (rule foldl_max_ge)
    finally show ?thesis using True by simp
  next
    case False
    then show ?thesis using Cons by simp
  qed
qed

text \<open>The id the store assigns is larger than every id in the table, hence new.\<close>

lemma next_id_fresh: "p \<in> set rows \<Longrightarrow> plant_id p < next_id rows"
proof (cases rows)
  case Nil
  then show "p \<in> set rows \<Longrightarrow> plant_id p < next_id rows" by simp
next
  case (Cons q qs)
  assume "p \<in> set rows"
  then have "plant_id p = plant_id q \<or> plant_id p \<in> set (map plant_id qs)"
    using Cons by auto
  then have "plant_id p \<le> foldl max (plant_id q) (map plant_id qs)"
    using foldl_max_ge foldl_max_mem by metis
  then show "plant_id p < next_id rows" using Cons by simp
qed

lemma new_id_fresh:
  assumes "new_id sch rows = Some n"
  shows "sqlite_int n \<and> n \<notin> set (map plant_id rows)"
proof (cases "sqlite_int (next_id rows)")
  case True
  then have n: "n = next_id rows" using assms by (simp add: new_id_def)
  have "\<forall>p\<in>set rows. plant_id p \<noteq> next_id rows"
    using next_id_fresh by fastforce
  then have "next_id rows \<notin> set (map plant_id rows)" by auto
  then show ?thesis using True n by simp
next
  case False
  then show ?thesis
    using assms by (auto simp: new_id_def split: option.splits if_splits)
qed

lemma find_append_new:
  assumes "\<forall>q\<in>set rows. plant_id q \<noteq> plant_id p"
  shows "find (\<lambda>r. plant_id r = plant_id p) (rows @ [p]) = Some p"
  using assms by (induction rows) auto

lemma query_first_append_new:
  assumes "plant_id p \<notin> set (map plant_id rows)" and "sqlite_int (plant_id p)"
  shows "query_first (plant_id p) (rows @ [p]) = Inr (Some p)"
proof -
  have "\<forall>q\<in>set rows. plant_id q \<noteq> plant_id p"
  proof
    fix q assume "q \<in> set rows"
    then have "plant_id q \<in> set (map plant_id rows)" by simp
    then show "plant_id q \<noteq> plant_id p" using assms(1) by metis
  qed
  then show ?thesis using find_append_new assms(2) by (simp add: query_first_def)
qed

lemma post_created:
  assumes "Plants_post sch (PDict d) s = (Response 201 b, s')"
  shows "\<exists>rows n nm im pr. s = Some rows \<and> new_id sch rows = Some n \<and>
     map_of d ''name'' = Some nm \<and> map_of d ''image'' = Some im \<and>
     map_of d ''price'' = Some pr \<and>
     b = PDict [(''success'', PBool True),
                (''data'', to_dict \<lparr>plant_id = n, plant_name = nm, plant_image = im,
                   plant_price = pr, plant_is_in_stock = default_is_in_stock sch\<rparr>)] \<and>
     s' = Some (rows @ [\<lparr>plant_id = n, plant_name = nm, plant_image = im,
                   plant_price = pr, plant_is_in_stock = default_is_in_stock sch\<rparr>])"
proof -
  have t: "post_try sch (PDict d) s = (Response 201 b, s')"
    using assms by (auto simp: Plants_post_def split: if_splits sum.splits option.splits)
  obtain nm where nm: "map_of d ''name'' = Some nm"
    using t by (cases "map_of d ''name''") (auto simp: post_try_def)
  obtain im where im: "map_of d ''image'' = Some im"
    using t nm by (cases "map_of d ''image''") (auto simp: post_try_def)
  obtain pr where pr: "map_of d ''price'' = Some pr"
    using t nm im by (cases "map_of d ''price''") (auto simp: post_try_def)
  obtain rows where rows: "s = Some rows"
    using t nm im pr by (cases s) (auto simp: post_try_def)
  obtain n where n: "new_id sch rows = Some n"
    using t nm im pr rows by (cases "new_id sch rows") (auto simp: post_try_def)
  show ?thesis
    using t nm im pr rows n
    by (auto simp: post_try_def Let_def split: commit_result.splits)
qed

text \<open>
  C5. A create request answered 201 returns a record whose \<open>id\<close> is the new one, and
  get-by-id with that id answers 200 with the same record: \<open>name\<close>, \<open>image\<close> and \<open>price\<close>
  are the values of the request body and \<open>is_in_stock\<close> is the default of the store,
  whatever the body says about \<open>is_in_stock\<close>.
\<close>

theorem create_then_get:
  assumes "Plants_post sch (PDict d) s = (Response 201 b, s')"
  shows "\<exists>n nm im pr.
     map_of d ''name'' = Some nm \<and> map_of d ''image'' = Some im \<and>
     map_of d ''price'' = Some pr \<and>
     b = PDict [(''success'', PBool True),
                (''data'', to_dict \<lparr>plant_id = n, plant_name = nm, plant_image = im,
                   plant_price = pr, plant_is_in_stock = default_is_in_stock sch\<rparr>)] \<and>
     PlantByID_get n s' =
       (Response 200
          (to_dict \<lparr>plant_id = n, plant_name = nm, plant_image = im,
             plant_price = pr, plant_is_in_stock = default_is_in_stock sch\<rparr>),
        s')"
proof -
  obtain rows n nm im pr where s: "s = Some rows"
    and n: "new_id sch rows = Some n"
    and v: "map_of d ''name'' = Some nm" "map_of d ''image'' = Some im"
      "map_of d ''price'' = Some pr"
    and b: "b = PDict [(''success'', PBool True),
                (''data'', to_dict \<lparr>plant_id = n, plant_name = nm, plant_image = im,
                   plant_price = pr, plant_is_in_stock = default_is_in_stock sch\<rparr>)]"
    and s': "s' = Some (rows @ [\<lparr>plant_id = n, plant_name = nm, plant_image = im,
                   plant_price = pr, plant_is_in_stock = default_is_in_stock sch\<rparr>])"
    using post_created [OF assms] by blast
  define p where "p = \<lparr>plant_id = n, plant_name = nm, plant_image = im,
                   plant_price = pr, plant_is_in_stock = default_is_in_stock sch\<rparr>"
  have "plant_id p \<notin> set (map plant_id rows)" "sqlite_int (plant_id p)"
    using new_id_fresh [OF n] by (simp_all add: p_def)
  then have "query_first (plant_id p) (rows @ [p]) = Inr (Some p)"
    by (rule query_first_append_new)
  then have "PlantByID_get n (Some (rows @ [p])) =
      (Response 200 (to_dict p), Some (rows @ [p]))"
    by (simp add: PlantByID_get_def bootstrap_def p_def)
  then show ?thesis using v b s' unfolding p_def by blast
qed

theorem create_then_get_witness:
  "Plants_post lax_schema
     (PDict [(''name'', PStr ''Fern''), (''image'', PStr ''fern.jpg''), (''price'', PFloat 12.5),
             (''is_in_stock'', PBool True)])
     (Some [test_plant]) =
   (Response 201 (PDict [(''success'', PBool True), (''data'', to_dict fern_plant)]),
    Some [test_plant, fern_plant]) \<and>
   PlantByID_get 2 (Some [test_plant, fern_plant]) =
     (Response 200 (to_dict fern_plant), Some [test_plant, fern_plant]) \<and>
   plant_is_in_stock fern_plant = default_is_in_stock lax_schema"
proof -
  have e: "Plants_post lax_schema
     (PDict [(''name'', PStr ''Fern''), (''image'', PStr ''fern.jpg''), (''price'', PFloat 12.5),
             (''is_in_stock'', PBool True)])
     (Some [test_plant]) =
   (Response 201 (PDict [(''success'', PBool True), (''data'', to_dict fern_plant)]),
    Some [test_plant, fern_plant])"
    by (simp add: Plants_post_def validate_plant_data_def required_fields_def check_name_def
        check_price_def strip_def py_isspace_def post_try_def lax_schema_def fern_plant_def
        test_plant_def Let_def new_id_def sqlite_int_def)
  show ?thesis
    using e create_then_get [OF e]
    by (auto simp: to_dict_def plant_attrs_def fern_plant_def lax_schema_def)
qed

section \<open>The decimal form of an id\<close>

lemma digit_char_value:
  assumes "d < 10"
  shows "(of_char (digit_char d) :: nat) = 48 + d"
proof -
  have "d = 0 \<or> d = 1 \<or> d = 2 \<or> d = 3 \<or> d = 4 \<or> d = 5 \<or> d = 6 \<or> d = 7 \<or> d = 8 \<or> d = 9"
    using assms by arith
  then show ?thesis by (auto simp: digit_char_def)
qed

lemma digit_char_digit:
  assumes "d < 10"
  shows "digit_char d \<in> set ''0123456789''"
proof -
  have "d = 0 \<or> d = 1 \<or> d = 2 \<or> d = 3 \<or> d = 4 \<or> d = 5 \<or> d = 6 \<or> d = 7 \<or> d = 8 \<or> d = 9"
    using assms by arith
  then show ?thesis by (auto simp: digit_char_def)
qed

lemma digit_char_zero:
  assumes "d < 10" and "digit_char d = CHR ''0''"
  shows "d = 0"
proof -
  have "(of_char (digit_char d) :: nat) = 48 + d" using assms(1) by (rule digit_char_value)
  then show ?thesis using assms(2) by simp
qed

text \<open>\<open>str_nat\<close> writes the number in decimal: reading the digits back gives the number.\<close>

lemma decimal_value_str_nat: "decimal_value (str_nat n) = n"
proof (induction n rule: str_nat.induct)
  case (1 n)
  show ?case
  proof (cases "n < 10")
    case True
    then show ?thesis
      by (simp add: str_nat.simps [of n] decimal_value_def digit_char_value)
  next
    case False
    then have "decimal_value (str_nat (n div 10)) = n div 10" using 1 by simp
    then show ?thesis
      using False
      by (simp add: str_nat.simps [of n] decimal_value_def digit_char_value)
  qed
qed

lemma str_nat_not_empty: "str_nat n \<noteq> []"
  by (simp add: str_nat.simps [of n])

lemma str_nat_digits: "set (str_nat n) \<subseteq> set ''0123456789''"
proof (induction n rule: str_nat.induct)
  case (1 n)
  show ?case
  proof (cases "n < 10")
    case True
    then show ?thesis
      using digit_char_digit [of n] by (simp add: str_nat.simps [of n])
  next
    case False
    then have "set (str_nat (n div 10)) \<subseteq> set ''0123456789''" using 1 by simp
    moreover have "digit_char (n mod 10) \<in> set ''0123456789''"
      by (rule digit_char_digit) simp
    ultimately show ?thesis
      using False by (simp add: str_nat.simps [of n])
  qed
qed

lemma str_nat_leading: "hd (str_nat n) = CHR ''0'' \<Longrightarrow> n = 0"
proof (induction n rule: str_nat.induct)
  case (1 n)
  show ?case
  proof (cases "n < 10")
    case True
    then have "digit_char n = CHR ''0''" using "1.prems" by (simp add: str_nat.simps [of n])
    then show ?thesis using True digit_char_zero by blast
  next
    case False
    then have "hd (str_nat n) = hd (str_nat (n div 10))"
      using str_nat_not_empty [of "n div 10"] by (simp add: str_nat.simps [of n])
    then have "n div 10 = 0" using 1 False by simp
    then show ?thesis using False by simp
  qed
qed

lemma str_nat_no_leading_zero: "1 < length (str_nat n) \<Longrightarrow> hd (str_nat n) \<noteq> CHR ''0''"
proof
  assume l: "1 < length (str_nat n)" and "hd (str_nat n) = CHR ''0''"
  then have "n = 0" using str_nat_leading by blast
  then have "length (str_nat n) = 1" by (simp add: str_nat.simps [of 0])
  then show False using l by simp
qed

section \<open>Records that do not exist\<close>

text \<open>
  C6, as the program has it. The route passes a non-negative integer. Get-by-id first
  creates the table and inserts the seed row with id 1 when the table is missing, then
  looks the id up. For an id below \<open>2 ^ 63\<close> that no row of the table has (on a store
  without the table: any such id but 1), the answer is 404, the body is exactly
  \<^verbatim>\<open>{"error": "Plant with id <id> not found"}\<close> with the id in decimal digits without
  leading zeros, and the store afterwards is the table as it was, or the new table with
  the seed row.
\<close>

theorem get_missing_is_404:
  assumes "0 \<le> i" and "i < 2 ^ 63"
    and "case s of None \<Rightarrow> i \<noteq> 1 | Some rows \<Rightarrow> i \<notin> plant_id ` set rows"
  shows "\<exists>ds. PlantByID_get i s =
       (Response 404 (PDict [(''error'', PStr (''Plant with id '' @ ds @ '' not found''))]),
        (case s of
           None \<Rightarrow> Some [\<lparr>plant_id = 1, plant_name = PStr ''Test Plant'',
                          plant_image = PStr ''test.jpg'', plant_price = PFloat 9.99,
                          plant_is_in_stock = PBool True\<rparr>]
         | Some rows \<Rightarrow> Some rows)) \<and>
     ds \<noteq> [] \<and> set ds \<subseteq> set ''0123456789'' \<and>
     (1 < length ds \<longrightarrow> hd ds \<noteq> CHR ''0'') \<and>
     foldl (\<lambda>a c. 10 * a + (of_char c - 48)) 0 ds = nat i"
proof -
  have r: "sqlite_int i" using assms(1,2) by (simp add: sqlite_int_def)
  have f: "find (\<lambda>p. plant_id p = i) (bootstrap s) = None"
  proof (cases s)
    case None
    then show ?thesis using assms(3) by (simp add: bootstrap_def test_plant_def)
  next
    case (Some rows)
    then have "i \<notin> plant_id ` set rows" using assms(3) by simp
    then have "\<forall>p\<in>set rows. plant_id p \<noteq> i" by blast
    then show ?thesis using Some by (simp add: bootstrap_def find_None_iff)
  qed
  have b: "Some (bootstrap s) =
        (case s of
           None \<Rightarrow> Some [\<lparr>plant_id = 1, plant_name = PStr ''Test Plant'',
                          plant_image = PStr ''test.jpg'', plant_price = PFloat 9.99,
                          plant_is_in_stock = PBool True\<rparr>]
         | Some rows \<Rightarrow> Some rows)"
    by (cases s) (simp_all add: bootstrap_def test_plant_def)
  have g: "PlantByID_get i s =
       (Response 404 (PDict [(''error'', PStr (''Plant with id '' @ str_nat (nat i) @ '' not found''))]),
        Some (bootstrap s))"
    using r f assms(1) by (simp add: PlantByID_get_def query_first_def error_body_def str_int_def)
  have v: "foldl (\<lambda>a c. 10 * a + (of_char c - 48)) 0 (str_nat (nat i)) = nat i"
    using decimal_value_str_nat [of "nat i"] by (simp add: decimal_value_def)
  show ?thesis
    using g b str_nat_not_empty [of "nat i"] str_nat_digits [of "nat i"]
      str_nat_no_leading_zero [of "nat i"] v
    by (intro exI [of _ "str_nat (nat i)"]) simp
qed

theorem get_missing_is_404_witness:
  "(0::int) \<le> 999 \<and> (999::int) < 2 ^ 63 \<and>
   (case Some [test_plant, fern_plant] of None \<Rightarrow> (999::int) \<noteq> 1
    | Some rows \<Rightarrow> 999 \<notin> plant_id ` set rows) \<and>
   PlantByID_get 999 (Some [test_plant, fern_plant]) =
     (Response 404 (PDict [(''error'', PStr ''Plant with id 999 not found'')]),
      Some [test_plant, fern_plant]) \<and>
   PlantByID_get 40 None =
     (Response 404 (PDict [(''error'', PStr ''Plant with id 40 not found'')]),
      Some [test_plant]) \<and>
   (\<exists>ds. PlantByID_get 999 (Some [test_plant, fern_plant]) =
       (Response 404 (PDict [(''error'', PStr (''Plant with id '' @ ds @ '' not found''))]),
        Some [test_plant, fern_plant]) \<and>
     foldl (\<lambda>a c. 10 * a + (of_char c - 48)) 0 ds = (999::nat))"
proof -
  have a: "(0::int) \<le> 999" and b: "(999::int) < 2 ^ 63" by simp_all
  have c: "case Some [test_plant, fern_plant] of None \<Rightarrow> (999::int) \<noteq> 1
    | Some rows \<Rightarrow> 999 \<notin> plant_id ` set rows"
    by (simp add: test_plant_def fern_plant_def)
  have e: "PlantByID_get 999 (Some [test_plant, fern_plant]) =
     (Response 404 (PDict [(''error'', PStr ''Plant with id 999 not found'')]),
      Some [test_plant, fern_plant])"
    by (simp add: PlantByID_get_def bootstrap_def query_first_def sqlite_int_def error_body_def
        test_plant_def fern_plant_def str_int_def str_nat.simps digit_char_def)
  have n: "PlantByID_get 40 None =
     (Response 404 (PDict [(''error'', PStr ''Plant with id 40 not found'')]),
      Some [test_plant])"
    by (simp add: PlantByID_get_def bootstrap_def query_first_def sqlite_int_def error_body_def
        test_plant_def str_int_def str_nat.simps digit_char_def)
  have t: "\<exists>ds. PlantByID_get 999 (Some [test_plant, fern_plant]) =
       (Response 404 (PDict [(''error'', PStr (''Plant with id '' @ ds @ '' not found''))]),
        Some [test_plant, fern_plant]) \<and>
     foldl (\<lambda>a c. 10 * a + (of_char c - 48)) 0 ds = (999::nat)"
    using get_missing_is_404 [OF a b c] by auto
  show ?thesis by (intro conjI a b c e n t)
qed

text \<open>
  Two requests for an id that has no record and are not answered 404: on a store without
  the table, the lookup of id 1 finds the seed row that the handler has just inserted;
  and the id \<open>2 ^ 63\<close> cannot be bound, so the lookup raises and the \<^verbatim>\<open>except\<close> branch
  answers 500.
\<close>

theorem get_missing_not_404:
  "PlantByID_get 1 None =
     (Response 200
        (PDict [(''id'', PInt 1), (''name'', PStr ''Test Plant''), (''image'', PStr ''test.jpg''),
                (''price'', PFloat 9.99), (''is_in_stock'', PBool True)]),
      Some [test_plant]) \<and>
   PlantByID_get 9223372036854775808 (Some []) =
     (Response 500
        (PDict [(''error'',
                 PStr ''Server error occurred: Python int too large to convert to SQLite INTEGER''),
                (''details'', PStr ''OverflowError'')]),
      Some [])"
  by (simp add: PlantByID_get_def bootstrap_def query_first_def sqlite_int_def test_plant_def
      to_dict_def plant_attrs_def overflow_body_def)

lemma query_first_deleted: "sqlite_int i \<Longrightarrow> query_first i (delete_rows i rows) = Inr None"
  by (induction rows) (auto simp: query_first_def delete_rows_def)

lemma query_first_absent:
  "sqlite_int i \<Longrightarrow> i \<notin> plant_id ` set rows \<Longrightarrow> query_first i rows = Inr None"
proof -
  assume r: "sqlite_int i" and "i \<notin> plant_id ` set rows"
  then have "\<forall>p\<in>set rows. plant_id p \<noteq> i" by blast
  then show ?thesis using r by (simp add: query_first_def find_None_iff)
qed

lemma delete_missing:
  "query_first i rows = Inr None \<Longrightarrow>
   PlantByID_delete sch i (Some rows) = (Response 404 (error_body ''Plant not found''), Some rows)"
  by (simp add: PlantByID_delete_def)

lemma delete_done:
  assumes "http_status (fst (PlantByID_delete sch i (Some rows))) = 204"
  shows "PlantByID_delete sch i (Some rows) = (Response 204 (PStr []), Some (delete_rows i rows)) \<and>
         sqlite_int i"
  using assms
  by (auto simp: PlantByID_delete_def error_body_def query_first_def
      split: option.splits sum.splits commit_result.splits if_splits)

text \<open>
  C7, as the program has it. In a store whose table exists, deleting an id of the store's
  integers that no row has is answered 404 and leaves the store as it was. A delete
  answered 204 leaves the table without the rows of that id and with every other row, so
  deleting the id again is answered 404 and changes nothing.
\<close>

theorem delete_missing_is_404:
  "(- (2 ^ 63) \<le> i \<and> i < 2 ^ 63 \<and> i \<notin> plant_id ` set rows \<longrightarrow>
      PlantByID_delete sch i (Some rows) =
        (Response 404 (PDict [(''error'', PStr ''Plant not found'')]), Some rows)) \<and>
   (http_status (fst (PlantByID_delete sch i (Some rows))) = 204 \<longrightarrow>
      snd (PlantByID_delete sch i (Some rows)) = Some (filter (\<lambda>p. plant_id p \<noteq> i) rows) \<and>
      PlantByID_delete sch i (snd (PlantByID_delete sch i (Some rows))) =
        (Response 404 (PDict [(''error'', PStr ''Plant not found'')]),
         snd (PlantByID_delete sch i (Some rows))))"
proof (intro conjI impI)
  assume "- (2 ^ 63) \<le> i \<and> i < 2 ^ 63 \<and> i \<notin> plant_id ` set rows"
  then have "query_first i rows = Inr None"
    using query_first_absent by (simp add: sqlite_int_def)
  then show "PlantByID_delete sch i (Some rows) =
        (Response 404 (PDict [(''error'', PStr ''Plant not found'')]), Some rows)"
    using delete_missing by (simp add: error_body_def)
next
  assume "http_status (fst (PlantByID_delete sch i (Some rows))) = 204"
  from delete_done [OF this]
  show "snd (PlantByID_delete sch i (Some rows)) = Some (filter (\<lambda>p. plant_id p \<noteq> i) rows)"
    by (simp add: delete_rows_def)
next
  assume "http_status (fst (PlantByID_delete sch i (Some rows))) = 204"
  from delete_done [OF this]
  have s: "snd (PlantByID_delete sch i (Some rows)) = Some (delete_rows i rows)"
    and r: "sqlite_int i"
    by simp_all
  show "PlantByID_delete sch i (snd (PlantByID_delete sch i (Some rows))) =
        (Response 404 (PDict [(''error'', PStr ''Plant not found'')]),
         snd (PlantByID_delete sch i (Some rows)))"
    using delete_missing [OF query_first_deleted [OF r]] s by (simp add: error_body_def)
qed

theorem delete_missing_is_404_witness:
  "(- (2 ^ 63) \<le> (5::int) \<and> (5::int) < 2 ^ 63 \<and> 5 \<notin> plant_id ` set [test_plant, fern_plant]) \<and>
   PlantByID_delete lax_schema 5 (Some [test_plant, fern_plant]) =
     (Response 404 (PDict [(''error'', PStr ''Plant not found'')]), Some [test_plant, fern_plant]) \<and>
   PlantByID_delete lax_schema 1 (Some [test_plant, fern_plant]) =
     (Response 204 (PStr []), Some [fern_plant]) \<and>
   PlantByID_delete lax_schema 1 (Some [fern_plant]) =
     (Response 404 (PDict [(''error'', PStr ''Plant not found'')]), Some [fern_plant])"
proof -
  have a: "- (2 ^ 63) \<le> (5::int) \<and> (5::int) < 2 ^ 63 \<and> 5 \<notin> plant_id ` set [test_plant, fern_plant]"
    by (simp add: test_plant_def fern_plant_def)
  have b: "PlantByID_delete lax_schema 1 (Some [test_plant, fern_plant]) =
      (Response 204 (PStr []), Some [fern_plant])"
    by (simp add: PlantByID_delete_def query_first_def sqlite_int_def test_plant_def
        fern_plant_def lax_schema_def delete_rows_def)
  show ?thesis
    using a b delete_missing_is_404 [of 5 "[test_plant, fern_plant]" lax_schema]
      delete_missing_is_404 [of 1 "[test_plant, fern_plant]" lax_schema]
    by simp
qed

text \<open>
  Two deletes of an id that has no record and are not answered 404: the id \<open>2 ^ 63\<close>
  cannot be bound, so the lookup raises, outside \<^verbatim>\<open>try\<close>; and on a store without the
  table the lookup raises as well. Both are answered with status 500.
\<close>

theorem delete_missing_not_404:
  "PlantByID_delete lax_schema 9223372036854775808 (Some []) = (Raised OverflowError, Some []) \<and>
   http_status (Raised OverflowError) = 500 \<and>
   PlantByID_delete lax_schema 1 None = (Raised OperationalError, None) \<and>
   http_status (Raised OperationalError) = 500"
  by (simp add: PlantByID_delete_def query_first_def sqlite_int_def)

section \<open>Listing after creates and deletes\<close>

lemma distinct_replace:
  assumes "distinct (ids :: int list)" and "n \<notin> set ids"
  shows "distinct (map (\<lambda>x. if x = i then n else x) ids)"
proof -
  have "inj_on (\<lambda>x. if x = i then n else x) (set ids)"
  proof (rule inj_onI)
    fix x y
    assume "x \<in> set ids" "y \<in> set ids"
      and "(if x = i then n else x) = (if y = i then n else y)"
    then show "x = y" using assms(2) by (auto split: if_splits)
  qed
  then show ?thesis using assms(1) by (simp add: distinct_map)
qed

lemma distinct_update_rows:
  assumes "distinct (map plant_id rows)"
    and "plant_id q = i \<or> plant_id q \<notin> set (map plant_id rows)"
  shows "distinct (map plant_id (update_rows i q rows))"
proof (cases "plant_id q = i")
  case True
  then show ?thesis using assms(1) ids_update_rows by simp
next
  case False
  then have n: "plant_id q \<notin> set (map plant_id rows)" using assms(2) by simp
  have "map plant_id (update_rows i q rows) =
        map (\<lambda>x. if x = i then plant_id q else x) (map plant_id rows)"
    by (simp add: update_rows_def comp_def if_distrib)
  then show ?thesis using distinct_replace [OF assms(1) n] by simp
qed

lemma delete_rows_absent: "i \<notin> set (map plant_id rows) \<Longrightarrow> delete_rows i rows = rows"
  by (induction rows) (auto simp: delete_rows_def)

lemma length_delete_rows:
  assumes "distinct (map plant_id rows)" and "find (\<lambda>r. plant_id r = i) rows = Some p"
  shows "Suc (length (delete_rows i rows)) = length rows"
  using assms
proof (induction rows)
  case Nil
  then show ?case by simp
next
  case (Cons r rows)
  show ?case
  proof (cases "plant_id r = i")
    case True
    then have "i \<notin> set (map plant_id rows)" using Cons.prems(1) by simp
    then have "delete_rows i rows = rows" by (rule delete_rows_absent)
    then show ?thesis using True by (simp add: delete_rows_def)
  next
    case False
    then have "find (\<lambda>r. plant_id r = i) rows = Some p" using Cons.prems(2) by simp
    then show ?thesis using Cons False by (simp add: delete_rows_def)
  qed
qed

text \<open>
  One request on a table with unique ids: the ids stay unique, a 201 adds one row, a 204
  removes one row and every other outcome leaves the number of rows as it was.
\<close>

lemma handle_count:
  assumes "handle sch r (Some rows) = (out, s')" and "distinct (map plant_id rows)"
  shows "\<exists>rows'. s' = Some rows' \<and> distinct (map plant_id rows') \<and>
     length rows' + count_status 204 [out] = length rows + count_status 201 [out]"
proof (cases r)
  case ListPlants
  then show ?thesis using assms
    by (auto simp: Plants_get_def count_status_def)
next
  case (CreatePlant data)
  then have e: "Plants_post sch data (Some rows) = (out, s')" using assms by simp
  show ?thesis
  proof (cases "http_status out = 201")
    case True
    then have t: "post_try sch data (Some rows) = (out, s')"
      using e by (auto simp: Plants_post_def error_body_def split: if_splits sum.splits option.splits)
    then obtain p n where "s' = Some (rows @ [p])" "plant_id p = n" "new_id sch rows = Some n"
      using True
      by (auto simp: post_try_def Let_def error_body_def
          split: sum.splits option.splits commit_result.splits)
    then show ?thesis using True assms(2) new_id_fresh
      by (fastforce simp: count_status_def)
  next
    case False
    then have t: "s' = Some rows \<and> http_status out \<noteq> 204"
      using e
      by (auto simp: Plants_post_def post_try_def Let_def error_body_def
          split: if_splits sum.splits option.splits commit_result.splits)
    then show ?thesis using False assms(2) by (simp add: count_status_def)
  qed
next
  case (GetPlant i)
  then show ?thesis using assms
    by (auto simp: PlantByID_get_def bootstrap_def error_body_def count_status_def
        split: option.splits sum.splits)
next
  case (PatchPlant i data)
  then have e: "PlantByID_patch sch i data (Some rows) = (out, s')" using assms by simp
  from patch_cases [OF e] show ?thesis
  proof (rule disjE)
    assume "s' = Some rows \<and> http_status out \<in> {400, 404, 500}"
    then show ?thesis using assms(2) by (auto simp: count_status_def)
  next
    assume "\<exists>p ks obj q. query_first i rows = Inr (Some p) \<and> py_truthy data \<and>
              py_iter data = Inr ks \<and>
              set_attrs sch ks data (plant_attrs p, []) = Inr obj \<and>
              commit_update sch i (fst obj) rows = Some (q, update_rows i q rows) \<and>
              s' = Some (update_rows i q rows) \<and>
              (http_status out = 200 \<or> http_status out = 500) \<and>
              (snd obj = [] \<longrightarrow> out = Response 200 (to_dict q))"
    then obtain obj :: plant_obj and q
      where c: "commit_update sch i (fst obj) rows = Some (q, update_rows i q rows)"
      and s': "s' = Some (update_rows i q rows)"
      and st: "http_status out = 200 \<or> http_status out = 500"
      by auto
    have "plant_id q = i \<or> plant_id q \<notin> set (map plant_id rows)"
      using commit_update_Some [OF c] by simp
    then have "distinct (map plant_id (update_rows i q rows))"
      "length (update_rows i q rows) = length rows"
      using distinct_update_rows [OF assms(2)] by (simp_all add: update_rows_def)
    then show ?thesis using s' st by (auto simp: count_status_def)
  qed
next
  case (DeletePlant i)
  then have e: "PlantByID_delete sch i (Some rows) = (out, s')" using assms by simp
  show ?thesis
  proof (cases "http_status out = 204")
    case True
    then obtain p where p: "find (\<lambda>r. plant_id r = i) rows = Some p"
      and s': "s' = Some (delete_rows i rows)"
      using e
      by (auto simp: PlantByID_delete_def error_body_def query_first_def
          split: option.splits sum.splits commit_result.splits if_splits)
    have "distinct (map plant_id (delete_rows i rows))"
      using assms(2) by (simp add: delete_rows_def distinct_map_filter)
    then show ?thesis
      using True s' length_delete_rows [OF assms(2) p] by (simp add: count_status_def)
  next
    case False
    then have "s' = Some rows \<and> http_status out \<noteq> 201"
      using e
      by (auto simp: PlantByID_delete_def error_body_def
          split: option.splits sum.splits commit_result.splits)
    then show ?thesis using False assms(2) by (simp add: count_status_def)
  qed
qed

lemma count_status_Cons:
  "count_status code (out # outs) = count_status code [out] + count_status code outs"
  by (simp add: count_status_def)

lemma run_count:
  assumes "run sch rs (Some rows) = (outs, s')" and "distinct (map plant_id rows)"
  shows "\<exists>rows'. s' = Some rows' \<and>
     length rows' + count_status 204 outs = length rows + count_status 201 outs"
  using assms
proof (induction rs arbitrary: rows outs)
  case Nil
  then show ?case by (auto simp: count_status_def)
next
  case (Cons r rs)
  obtain out s1 where h: "handle sch r (Some rows) = (out, s1)"
    by (cases "handle sch r (Some rows)") simp
  obtain rows1 where s1: "s1 = Some rows1" and d1: "distinct (map plant_id rows1)"
    and l1: "length rows1 + count_status 204 [out] = length rows + count_status 201 [out]"
    using handle_count [OF h Cons.prems(2)] by blast
  obtain outs1 where r1: "run sch rs (Some rows1) = (outs1, s')" and o: "outs = out # outs1"
    using Cons.prems(1) h s1 by (auto split: prod.splits)
  obtain rows' where s': "s' = Some rows'"
    and l2: "length rows' + count_status 204 outs1 = length rows1 + count_status 201 outs1"
    using Cons.IH [OF r1 d1] by blast
  have "length rows' + count_status 204 outs = length rows + count_status 201 outs"
    using l1 l2 unfolding o count_status_Cons [of _ out outs1] by linarith
  then show ?case using s' by simp
qed

text \<open>
  C9. Any sequence of requests served from the empty store, with N of them answered 201
  (successful creates) and M answered 204 (successful deletes): M is at most N, the table
  holds N - M records, and the list operation answers 200 with \<open>success\<close> true, these
  N - M records as \<open>data\<close> and \<open>count\<close> equal to N - M.
\<close>

theorem list_counts_creates_minus_deletes:
  assumes "run sch rs empty_store = (outs, s)"
  shows "count_status 204 outs \<le> count_status 201 outs \<and>
     (\<exists>rows. s = Some rows \<and>
        length rows = count_status 201 outs - count_status 204 outs \<and>
        Plants_get s =
          (Response 200
             (PDict [(''success'', PBool True),
                     (''data'', PList (map to_dict rows)),
                     (''count'', PInt (int (count_status 201 outs - count_status 204 outs)))]),
           s))"
proof -
  obtain rows where s: "s = Some rows"
    and l: "length rows + count_status 204 outs = length [] + count_status 201 outs"
    using run_count [of sch rs "[]" outs s] assms by (auto simp: empty_store_def)
  have n: "length rows = count_status 201 outs - count_status 204 outs"
    and m: "count_status 204 outs \<le> count_status 201 outs"
    using l by simp_all
  have "Plants_get s =
          (Response 200
             (PDict [(''success'', PBool True),
                     (''data'', PList (map to_dict rows)),
                     (''count'', PInt (int (length rows)))]),
           s)"
    by (simp add: Plants_get_def s)
  then show ?thesis using s n m by simp
qed

theorem list_counts_creates_minus_deletes_witness:
  "run lax_schema
     [CreatePlant (PDict [(''name'', PStr ''Test Plant''), (''image'', PStr ''test.jpg''),
                          (''price'', PFloat 9.99)]),
      CreatePlant (PDict [(''name'', PStr ''Fern''), (''image'', PStr ''fern.jpg''),
                          (''price'', PFloat 12.5)]),
      DeletePlant 1]
     empty_store =
   ([Response 201 (PDict [(''success'', PBool True),
        (''data'', to_dict (test_plant\<lparr>plant_is_in_stock := PNone\<rparr>))]),
     Response 201 (PDict [(''success'', PBool True), (''data'', to_dict fern_plant)]),
     Response 204 (PStr [])],
    Some [fern_plant]) \<and>
   Plants_get (Some [fern_plant]) =
     (Response 200
        (PDict [(''success'', PBool True), (''data'', PList [to_dict fern_plant]),
                (''count'', PInt 1)]),
      Some [fern_plant])"
proof -
  have e: "run lax_schema
     [CreatePlant (PDict [(''name'', PStr ''Test Plant''), (''image'', PStr ''test.jpg''),
                          (''price'', PFloat 9.99)]),
      CreatePlant (PDict [(''name'', PStr ''Fern''), (''image'', PStr ''fern.jpg''),
                          (''price'', PFloat 12.5)]),
      DeletePlant 1]
     empty_store =
   ([Response 201 (PDict [(''success'', PBool True),
        (''data'', to_dict (test_plant\<lparr>plant_is_in_stock := PNone\<rparr>))]),
     Response 201 (PDict [(''success'', PBool True), (''data'', to_dict fern_plant)]),
     Response 204 (PStr [])],
    Some [fern_plant])"
    by (simp add: empty_store_def Plants_post_def validate_plant_data_def required_fields_def
        check_name_def check_price_def strip_def py_isspace_def post_try_def lax_schema_def
        fern_plant_def test_plant_def Let_def PlantByID_delete_def query_first_def
        delete_rows_def new_id_def sqlite_int_def)
  show ?thesis
    using e list_counts_creates_minus_deletes [OF e]
    by (simp add: count_status_def)
qed
section \<open>Create requests the validator does not answer with 400\<close>

text \<open>
  C2, at the body \<^verbatim>\<open>{"name": 5}\<close>, which omits \<open>image\<close> and \<open>price\<close>: the loop over the
  required fields has recorded both, but the check of the name then raises AttributeError,
  so no error mapping is returned and the request is answered with status 500, not 400.
\<close>

theorem create_missing_fields_numeric_name:
  "''image'' \<notin> fst ` set [(''name'', PInt 5)] \<and>
   ''price'' \<notin> fst ` set [(''name'', PInt 5)] \<and>
   check_required required_fields (PDict [(''name'', PInt 5)]) [] =
     Inr [(''image'', ''This field is required''), (''price'', ''This field is required'')] \<and>
   validate_plant_data (PDict [(''name'', PInt 5)]) False = Inl AttributeError \<and>
   Plants_post sch (PDict [(''name'', PInt 5)]) s = (Raised AttributeError, s) \<and>
   http_status (fst (Plants_post sch (PDict [(''name'', PInt 5)]) s)) = 500"
  by (simp add: Plants_post_def validate_plant_data_def required_fields_def check_name_def)

text \<open>
  C4, at the body \<^verbatim>\<open>{"name": "Fern", "image": "fern.jpg", "price": true}\<close>: a JSON
  boolean is neither an integer nor a floating-point number, but \<^verbatim>\<open>isinstance\<close> accepts it
  (\<^verbatim>\<open>bool\<close> is a subclass of \<^verbatim>\<open>int\<close>), so the validator returns no error, the request is
  answered 201 and a record with price \<^verbatim>\<open>True\<close> is persisted. And at the body
  \<^verbatim>\<open>{"name": 5, "image": "fern.jpg", "price": "free"}\<close>: the check of the name raises
  before the price is looked at, so the answer is status 500 and not a 400 with an error
  keyed \<open>price\<close>.
\<close>

theorem create_non_numeric_price_not_rejected:
  "validate_plant_data
     (PDict [(''name'', PStr ''Fern''), (''image'', PStr ''fern.jpg''), (''price'', PBool True)])
     False = Inr None \<and>
   Plants_post lax_schema
     (PDict [(''name'', PStr ''Fern''), (''image'', PStr ''fern.jpg''), (''price'', PBool True)])
     empty_store =
   (Response 201
      (PDict [(''success'', PBool True),
              (''data'', to_dict \<lparr>plant_id = 1, plant_name = PStr ''Fern'',
                 plant_image = PStr ''fern.jpg'', plant_price = PBool True,
                 plant_is_in_stock = PNone\<rparr>)]),
    Some [\<lparr>plant_id = 1, plant_name = PStr ''Fern'', plant_image = PStr ''fern.jpg'',
           plant_price = PBool True, plant_is_in_stock = PNone\<rparr>]) \<and>
   Plants_post lax_schema
     (PDict [(''name'', PInt 5), (''image'', PStr ''fern.jpg''), (''price'', PStr ''free'')])
     empty_store =
   (Raised AttributeError, empty_store)"
  by (simp add: Plants_post_def validate_plant_data_def required_fields_def check_name_def
      check_price_def strip_def py_isspace_def post_try_def lax_schema_def empty_store_def
      Let_def new_id_def sqlite_int_def)


end
